theory Spec2Isabelle
  imports Complex_Main "HOL-Library.Log_Nat" "HOL-Library.Word"
begin

section \<open>The forgery-scoring engine of DocValidator_AI\<close>

text \<open>
  A shallow embedding of \<^verbatim>\<open>EnhancedForgeryDetector\<close> (\<^verbatim>\<open>src/server/ai/processor.js\<close>,
  second document of the file): the five analyzers, the suspicious-region detector and
  merger, the score aggregator and the report generator.

  What the image codec (sharp), the Python helpers, the file system and the clock deliver
  is data of the model: a record \<open>codec\<close> holds, for the image under analysis, the outcome
  of every asynchronous call (an error message or the bytes), a record \<open>host\<close> holds the
  clock reading of \<^verbatim>\<open>new Date()\<close>, the date parser and the outcome of saving a file, and
  a \<open>store\<close> holds the files by path. Everything the JavaScript computes from these
  outcomes is computed here by the same steps. A run of the engine ends in one of three
  ways: it returns, it throws, or the node process terminates on an \<^verbatim>\<open>'error'\<close> event that
  has no listener.
\<close>

subsection \<open>JavaScript numbers\<close>

text \<open>
  A JavaScript number is an IEEE 754 binary64 value. The finite ones are modelled as the
  real numbers they denote, and every arithmetic operation rounds its exact result to the
  nearest value with a 53-bit significand, ties to even (\<open>rnd\<close>). The exponent range is
  not modelled: all quantities of the engine (bytes, pixel counts, their sums and ratios)
  stay far inside it. The one non-finite value the engine can produce is NaN, from
  \<open>0 / 0\<close> on an empty buffer; it is written out as the constructor \<open>NaN\<close> of \<open>number\<close>
  at the places where it can arise.
\<close>

type_synonym double = real

definition rne :: "real \<Rightarrow> int" where
  "rne x = (let f = \<lfloor>x\<rfloor>; d = x - of_int f in
     if d < 1/2 then f else if 1/2 < d then f + 1 else if even f then f else f + 1)"

definition ilog2 :: "real \<Rightarrow> int" where
  "ilog2 x = (if 1 \<le> x then bitlen \<lfloor>x\<rfloor> - 1 else - bitlen (\<lceil>1 / x\<rceil> - 1))"

definition rnd :: "real \<Rightarrow> double" where
  "rnd x = (if x = 0 then 0 else
     (let e = ilog2 \<bar>x\<bar> - 52 in of_int (rne (x * 2 powi (- e))) * 2 powi e))"

definition fadd :: "double \<Rightarrow> double \<Rightarrow> double" where
  "fadd a b = rnd (a + b)"

definition fsub :: "double \<Rightarrow> double \<Rightarrow> double" where
  "fsub a b = rnd (a - b)"

definition fmul :: "double \<Rightarrow> double \<Rightarrow> double" where
  "fmul a b = rnd (a * b)"

text \<open>Division by a non-zero divisor; the callers write out the case of a zero divisor.\<close>

definition fdiv :: "double \<Rightarrow> double \<Rightarrow> double" where
  "fdiv a b = rnd (a / b)"

definition fsqrt :: "double \<Rightarrow> double" where
  "fsqrt a = rnd (sqrt a)"

text \<open>\<^verbatim>\<open>Math.pow(v, 2)\<close>, taken as the correctly rounded square.\<close>

definition fpow2 :: "double \<Rightarrow> double" where
  "fpow2 a = rnd (a * a)"

text \<open>A decimal literal of the source denotes the double nearest to it.\<close>

definition lit :: "real \<Rightarrow> double" where
  "lit q = rnd q"

datatype number = NaN | Fin double

text \<open>\<^verbatim>\<open>a > b\<close> where \<open>a\<close> may be NaN: every comparison with NaN is false.\<close>

definition gt :: "number \<Rightarrow> double \<Rightarrow> bool" where
  "gt a b = (case a of NaN \<Rightarrow> False | Fin v \<Rightarrow> b < v)"

type_synonym byte = "8 word"

definition byteval :: "byte \<Rightarrow> double" where
  "byteval p = real (unat p)"

subsection \<open>Configuration, codec and host\<close>

text \<open>\<^verbatim>\<open>config.ai.forgery\<close>: the two settings the detector reads.\<close>

record forgery_config =
  elaQuality :: nat
  suspiciousAreaThreshold :: double

definition config :: forgery_config where
  "config = \<lparr>elaQuality = 90, suspiciousAreaThreshold = lit (7/10)\<rparr>"

record exifData =
  DateTime :: "string option"
  Software :: "string option"

text \<open>
  An entry of the compression map: \<^verbatim>\<open>{x, y, width, height, quality}\<close>, as
  \<^verbatim>\<open>generateCompressionMap\<close> pushes it for each 8 by 8 block of the image resized to
  100 by 100; \<open>quality\<close> is the block's mean intensity, a finite double for the three- and
  four-channel buffers the codec returns.
\<close>

record block =
  block_x :: nat
  block_y :: nat
  block_width :: nat
  block_height :: nat
  quality :: double

type_synonym bytes = "byte list"

type_synonym store = "string \<Rightarrow> bytes option"

text \<open>
  How a call of the engine ends. \<open>Terminated\<close>: an \<^verbatim>\<open>'error'\<close> event without listener ended
  the process; nothing is returned or thrown, and what the store holds at that moment is
  not modelled. \<open>Thrown\<close> and \<open>Returned\<close> carry the store as the call leaves it.
\<close>

datatype 'a outcome = Terminated | Thrown string store | Returned 'a store

definition resultOf :: "'a outcome \<Rightarrow> 'a option" where
  "resultOf out = (case out of Returned r st \<Rightarrow> Some r | _ \<Rightarrow> None)"

definition storeOf :: "'a outcome \<Rightarrow> store option" where
  "storeOf out =
     (case out of Returned r st \<Rightarrow> Some st | Thrown e st \<Rightarrow> Some st | Terminated \<Rightarrow> None)"

text \<open>
  The calls of \<^verbatim>\<open>performELA\<close> before the ELA buffer is saved, in the order of the source:
  \<^item> \<open>ReencodeRejected\<close>: one of the two \<^verbatim>\<open>sharp(...).jpeg(...).toBuffer()\<close> calls rejects;
  \<^item> \<open>HelperErrorEvent\<close>: the child process of \<^verbatim>\<open>calculateImageDifference\<close> or its standard
    input emits \<^verbatim>\<open>'error'\<close> (the helper cannot be started, or it closes its input before
    the payload is written); the source registers listeners for \<^verbatim>\<open>'data'\<close> and
    \<^verbatim>\<open>'close'\<close> only;
  \<^item> \<open>HelperFailed\<close>: the helper closes with a code other than 0, which rejects the promise
    with \<^verbatim>\<open>ELA calculation failed: ...\<close>;
  \<^item> \<open>HelperOutput buffer decoded\<close>: the helper closes with code 0 and \<open>buffer\<close> on its
    standard output; \<open>decoded\<close> is the outcome of \<^verbatim>\<open>sharp(elaBuffer).raw().toBuffer()\<close>
    in \<^verbatim>\<open>analyzeELAStatistics\<close>.
\<close>

datatype elaCallsOutcome =
    ReencodeRejected string
  | HelperErrorEvent
  | HelperFailed string
  | HelperOutput bytes "string + byte list"

text \<open>
  What \<^verbatim>\<open>detectCompressionArtifacts\<close> gets from its helper:
  \<^item> \<open>SpawnFailed\<close>: the child process emits \<^verbatim>\<open>'error'\<close>, for which there is no listener;
  \<^item> \<open>ExitFailure stderr\<close>: the helper closes with a code other than 0;
  \<^item> \<open>Unparsable\<close>: code 0, but \<^verbatim>\<open>JSON.parse(output)\<close> throws;
  \<^item> \<open>ReplyNull\<close>: code 0 and the output parses to \<^verbatim>\<open>null\<close>;
  \<^item> \<open>Reply n\<close>: code 0 and the output parses to a value other than \<^verbatim>\<open>null\<close>; \<open>n\<close> is
    the number that the comparison \<^verbatim>\<open>.inconsistentBlocks > 5\<close> converts the property to
    (\<open>NaN\<close> when the value has no such property).
\<close>

datatype helperReply = SpawnFailed | ExitFailure string | Unparsable | ReplyNull | Reply number

text \<open>
  The outcomes of the asynchronous calls on the image at \<^verbatim>\<open>imagePath\<close>; \<open>Inl\<close> carries the
  message of a rejected call.
  \<^item> \<open>elaCalls q\<close>: the calls of \<^verbatim>\<open>performELA\<close> at quality \<open>q\<close>, see above;
  \<^item> \<open>elaGreyscale q\<close>: reading the saved ELA image back in greyscale:
    \<^verbatim>\<open>(data, info.width, info.height)\<close>;
  \<^item> \<open>imageMetadata\<close>: \<^verbatim>\<open>sharp(imagePath).metadata()\<close>, reduced to the EXIF fields that
    \<^verbatim>\<open>parseExifData\<close> extracts (\<open>None\<close> when the image has no EXIF block);
  \<^item> \<open>compressionHelper\<close>: the reply of the helper of \<^verbatim>\<open>detectCompressionArtifacts\<close>;
  \<^item> \<open>compressionMap\<close>: the result of \<^verbatim>\<open>generateCompressionMap\<close>;
  \<^item> \<open>noiseRaw\<close>, \<open>edgeRaw\<close>: the greyscale bytes, and the greyscale bytes after the
    3 by 3 edge convolution.
  The four analyzers beside the error-level analysis read the image as the store holds it
  when the run starts. The source starts all five together; when the ELA image is saved
  over the image itself (see \<open>elaOutputPath\<close>) the order of that write and of their reads
  is left to the scheduler and is not modelled.
\<close>

record codec =
  elaCalls :: "nat \<Rightarrow> elaCallsOutcome"
  elaGreyscale :: "nat \<Rightarrow> string + (byte list \<times> nat \<times> nat)"
  imageMetadata :: "string + exifData option"
  compressionHelper :: helperReply
  compressionMap :: "string + block list"
  noiseRaw :: "string + byte list"
  edgeRaw :: "string + byte list"

text \<open>
  The host: \<open>now\<close> is what \<^verbatim>\<open>new Date()\<close> reads (milliseconds since the epoch),
  \<open>dateParse s\<close> is the time value of \<^verbatim>\<open>new Date(s)\<close>, \<open>None\<close> for an invalid date, and
  \<open>writeFile path\<close> is the message with which \<^verbatim>\<open>fs.writeFile(path, ...)\<close> rejects, \<open>None\<close>
  when the file is written.
\<close>

record host =
  now :: int
  dateParse :: "string \<Rightarrow> int option"
  writeFile :: "string \<Rightarrow> string option"

subsection \<open>Strings\<close>

definition lowerChar :: "char \<Rightarrow> char" where
  "lowerChar c = (case map_of (zip ''ABCDEFGHIJKLMNOPQRSTUVWXYZ'' ''abcdefghijklmnopqrstuvwxyz'') c
     of None \<Rightarrow> c | Some l \<Rightarrow> l)"

definition toLowerCase :: "string \<Rightarrow> string" where
  "toLowerCase s = map lowerChar s"

fun startsWith :: "string \<Rightarrow> string \<Rightarrow> bool" where
  "startsWith s [] = True"
| "startsWith [] (c # cs) = False"
| "startsWith (d # ds) (c # cs) = (d = c \<and> startsWith ds cs)"

fun includesStr :: "string \<Rightarrow> string \<Rightarrow> bool" where
  "includesStr [] sub = (sub = [])"
| "includesStr (d # ds) sub = (startsWith (d # ds) sub \<or> includesStr ds sub)"

definition endsWith :: "string \<Rightarrow> string \<Rightarrow> bool" where
  "endsWith s suffix = startsWith (rev s) (rev suffix)"

fun join :: "string list \<Rightarrow> string \<Rightarrow> string" where
  "join [] sep = []"
| "join [s] sep = s"
| "join (s # t # ss) sep = s @ sep @ join (t # ss) sep"

definition digit :: "nat \<Rightarrow> char" where
  "digit d = ''0123456789'' ! d"

fun showNat :: "nat \<Rightarrow> string" where
  "showNat n = (if n < 10 then [digit n] else showNat (n div 10) @ [digit (n mod 10)])"

text \<open>
  \<^verbatim>\<open>imagePath.replace(/\.(jpg|jpeg|png)$/i, '_ela.jpg')\<close>: a path without one of the three
  extensions is left as it is.
\<close>

definition elaOutputPath :: "string \<Rightarrow> string" where
  "elaOutputPath imagePath =
     (let l = toLowerCase imagePath; n = length imagePath in
      if endsWith l ''.jpeg'' then take (n - 5) imagePath @ ''_ela.jpg''
      else if endsWith l ''.jpg'' \<or> endsWith l ''.png'' then take (n - 4) imagePath @ ''_ela.jpg''
      else imagePath)"

subsection \<open>Error-level analysis\<close>

record statistics =
  stat_mean :: number
  stat_variance :: number
  maxIntensity :: nat
  minIntensity :: nat
  standardDeviation :: number

text \<open>
  \<^verbatim>\<open>analyzeELAStatistics\<close>: one pass for sum, maximum and minimum, one for the variance.
  On an empty buffer \<^verbatim>\<open>sum / pixels.length\<close> is \<open>0 / 0\<close>.
\<close>

definition analyzeELAStatistics :: "byte list \<Rightarrow> statistics" where
  "analyzeELAStatistics pixels =
     (let total = foldl (\<lambda>s p. fadd s (byteval p)) 0 pixels;
          mx = foldl (\<lambda>m p. max m (unat p)) 0 pixels;
          mn = foldl (\<lambda>m p. min m (unat p)) 255 pixels
      in if pixels = []
         then \<lparr>stat_mean = NaN, stat_variance = NaN, maxIntensity = mx, minIntensity = mn,
               standardDeviation = NaN\<rparr>
         else
           (let m = fdiv total (real (length pixels));
                v = fdiv (foldl (\<lambda>a p. fadd a (fpow2 (fsub (byteval p) m))) 0 pixels)
                      (real (length pixels))
            in \<lparr>stat_mean = Fin m, stat_variance = Fin v, maxIntensity = mx, minIntensity = mn,
                standardDeviation = Fin (fsqrt v)\<rparr>))"

record elaAnalysis =
  elaImagePath :: string
  ela_statistics :: statistics
  hasAnomalies :: bool

text \<open>
  \<^verbatim>\<open>performELA\<close>: any rejected step is caught, logged and thrown again as a new error. The
  ELA buffer is saved at \<^verbatim>\<open>outputPath\<close> before its statistics are computed, so a buffer that
  does not decode leaves the file behind.
\<close>

definition performELA ::
  "forgery_config \<Rightarrow> host \<Rightarrow> codec \<Rightarrow> store \<Rightarrow> string \<Rightarrow> elaAnalysis outcome" where
  "performELA cfg h c st imagePath =
     (let outputPath = elaOutputPath imagePath in
      case elaCalls c (elaQuality cfg) of
        ReencodeRejected err \<Rightarrow> Thrown ''Failed to perform ELA analysis'' st
      | HelperErrorEvent \<Rightarrow> Terminated
      | HelperFailed err \<Rightarrow> Thrown ''Failed to perform ELA analysis'' st
      | HelperOutput elaBuffer decoded \<Rightarrow>
          (case writeFile h outputPath of
             Some err \<Rightarrow> Thrown ''Failed to perform ELA analysis'' st
           | None \<Rightarrow>
               (let st' = st(outputPath \<mapsto> elaBuffer) in
                case decoded of
                  Inl err \<Rightarrow> Thrown ''Failed to perform ELA analysis'' st'
                | Inr pixels \<Rightarrow>
                    (let stats = analyzeELAStatistics pixels
                     in Returned
                          \<lparr>elaImagePath = outputPath, ela_statistics = stats,
                           hasAnomalies =
                             (50 < maxIntensity stats \<or> gt (stat_variance stats) 1000)\<rparr>
                          st'))))"

subsection \<open>Compression analysis\<close>

record qualityVariance =
  q_mean :: number
  q_variance :: number
  stdDev :: number

definition calculateQualityVariance :: "block list \<Rightarrow> qualityVariance" where
  "calculateQualityVariance cmap =
     (let qualities = map quality cmap
      in if qualities = [] then \<lparr>q_mean = NaN, q_variance = NaN, stdDev = NaN\<rparr>
         else
           (let m = fdiv (foldl (\<lambda>s q. fadd s q) 0 qualities) (real (length qualities));
                v = fdiv (foldl (\<lambda>s q. fadd s (fpow2 (fsub q m))) 0 qualities)
                      (real (length qualities))
            in \<lparr>q_mean = Fin m, q_variance = Fin v, stdDev = Fin (fsqrt v)\<rparr>))"

record compressionPatterns =
  patterns_qualityVariance :: qualityVariance
  suspiciousBlockCount :: nat
  suspiciousBlocks :: "block list"
  overallSuspicion :: string

text \<open>
  \<^verbatim>\<open>detectCompressionArtifacts\<close>. The promise never rejects: a helper that closes with a
  code other than 0 resolves to no inconsistent blocks and its standard error, a reply
  that does not parse resolves to no inconsistent blocks, without a message. A child
  process that emits \<^verbatim>\<open>'error'\<close> ends the node process.
\<close>

record compressionArtifacts =
  inconsistentBlocks :: number
  artifactsError :: "string option"

datatype artifactsResult = ProcessTerminated | ResolvedNull | Resolved compressionArtifacts

definition detectCompressionArtifacts :: "codec \<Rightarrow> artifactsResult" where
  "detectCompressionArtifacts c =
     (case compressionHelper c of
        SpawnFailed \<Rightarrow> ProcessTerminated
      | ExitFailure err \<Rightarrow> Resolved \<lparr>inconsistentBlocks = Fin 0, artifactsError = Some err\<rparr>
      | Unparsable \<Rightarrow> Resolved \<lparr>inconsistentBlocks = Fin 0, artifactsError = None\<rparr>
      | ReplyNull \<Rightarrow> ResolvedNull
      | Reply n \<Rightarrow> Resolved \<lparr>inconsistentBlocks = n, artifactsError = None\<rparr>)"

text \<open>
  \<^verbatim>\<open>analyzeCompressionPatterns(artifacts, compressionMap)\<close>; the first argument is not
  read by the function.
\<close>

definition isSuspiciousBlock :: "qualityVariance \<Rightarrow> block \<Rightarrow> bool" where
  "isSuspiciousBlock qv b =
     (case (q_mean qv, stdDev qv) of
        (Fin m, Fin sd) \<Rightarrow> fmul sd 2 < \<bar>fsub (quality b) m\<bar>
      | _ \<Rightarrow> False)"

definition analyzeCompressionPatterns ::
  "compressionArtifacts \<Rightarrow> block list \<Rightarrow> compressionPatterns" where
  "analyzeCompressionPatterns artifacts cmap =
     (let qv = calculateQualityVariance cmap;
          suspicious = filter (isSuspiciousBlock qv) cmap
      in \<lparr>patterns_qualityVariance = qv,
          suspiciousBlockCount = length suspicious,
          suspiciousBlocks = take 10 suspicious,
          overallSuspicion = (if 5 < length suspicious then ''high''
                              else if 2 < length suspicious then ''medium'' else ''low'')\<rparr>)"

record compressionAnalysis =
  hasInconsistentCompression :: bool
  compressionError :: "string option"
  compressionArtifactsOf :: "compressionArtifacts option"
  compressionPatternsOf :: "compressionPatterns option"

text \<open>The message of the TypeError that reading a property of \<^verbatim>\<open>null\<close> throws.\<close>

definition nullPropertyMessage :: string where
  "nullPropertyMessage = ''Cannot read properties of null (reading 'inconsistentBlocks')''"

definition degradedCompression :: "string \<Rightarrow> compressionAnalysis" where
  "degradedCompression err =
     \<lparr>hasInconsistentCompression = False, compressionError = Some err,
      compressionArtifactsOf = None, compressionPatternsOf = None\<rparr>"

text \<open>
  \<^verbatim>\<open>analyzeCompression\<close>: the metadata call and the map generation may reject, and the
  helper may have replied \<^verbatim>\<open>null\<close>; the catch block returns the degraded object
  \<^verbatim>\<open>{hasInconsistentCompression: false, error}\<close>. The result is \<open>None\<close> when the helper's
  \<^verbatim>\<open>'error'\<close> event ends the process. The flag compares the count of the helper's reply.
\<close>

definition analyzeCompression :: "codec \<Rightarrow> compressionAnalysis option" where
  "analyzeCompression c =
     (case imageMetadata c of
        Inl err \<Rightarrow> Some (degradedCompression err)
      | Inr metadata \<Rightarrow>
          (case detectCompressionArtifacts c of
             ProcessTerminated \<Rightarrow> None
           | ResolvedNull \<Rightarrow>
               (case compressionMap c of
                  Inl err \<Rightarrow> Some (degradedCompression err)
                | Inr cmap \<Rightarrow> Some (degradedCompression nullPropertyMessage))
           | Resolved artifacts \<Rightarrow>
               (case compressionMap c of
                  Inl err \<Rightarrow> Some (degradedCompression err)
                | Inr cmap \<Rightarrow>
                    Some \<lparr>hasInconsistentCompression = gt (inconsistentBlocks artifacts) 5,
                          compressionError = None,
                          compressionArtifactsOf = Some artifacts,
                          compressionPatternsOf =
                            Some (analyzeCompressionPatterns artifacts cmap)\<rparr>)))"

subsection \<open>Metadata analysis\<close>

definition checkMetadataConsistency :: "host \<Rightarrow> exifData \<Rightarrow> bool" where
  "checkMetadataConsistency h exif =
     (let dateFindings =
            (case DateTime exif of
               None \<Rightarrow> []
             | Some s \<Rightarrow>
                 if s = [] then []
                 else (case dateParse h s of
                         None \<Rightarrow> []
                       | Some creationDate \<Rightarrow>
                           if now h < creationDate then [''Creation date is in the future'']
                           else []));
          suspiciousSoftware = [''photoshop'', ''gimp'', ''paint.net''];
          softwareFindings =
            (case Software exif of
               None \<Rightarrow> []
             | Some s \<Rightarrow>
                 if s \<noteq> [] \<and> list_ex (\<lambda>sw. includesStr (toLowerCase s) sw) suspiciousSoftware
                 then [''Image edited with photo manipulation software'']
                 else []);
          inconsistencies = dateFindings @ softwareFindings
      in 0 < length inconsistencies)"

record metadataAnalysis =
  hasInconsistentMetadata :: bool
  metadataError :: "string option"

definition analyzeMetadata :: "host \<Rightarrow> codec \<Rightarrow> metadataAnalysis" where
  "analyzeMetadata h c =
     (case imageMetadata c of
        Inl err \<Rightarrow> \<lparr>hasInconsistentMetadata = False, metadataError = Some err\<rparr>
      | Inr metadata \<Rightarrow>
          (let exif = (case metadata of
                         None \<Rightarrow> \<lparr>DateTime = None, Software = None\<rparr>
                       | Some e \<Rightarrow> e)
           in \<lparr>hasInconsistentMetadata = checkMetadataConsistency h exif,
               metadataError = None\<rparr>))"

subsection \<open>Noise analysis\<close>

record noiseMetrics =
  noise_mean :: number
  noise_variance :: number

text \<open>
  \<^verbatim>\<open>calculateNoiseMetrics\<close>: variance as mean of squares minus squared mean. The fields
  \<^verbatim>\<open>standardDeviation\<close> and \<^verbatim>\<open>snr\<close>, the noise map and its pattern analysis are computed
  without a call that can throw and are read by no later stage; they are left out.
\<close>

definition calculateNoiseMetrics :: "byte list \<Rightarrow> noiseMetrics" where
  "calculateNoiseMetrics pixels =
     (let total = foldl (\<lambda>s p. fadd s (byteval p)) 0 pixels;
          sumSquares = foldl (\<lambda>s p. fadd s (fmul (byteval p) (byteval p))) 0 pixels
      in if pixels = [] then \<lparr>noise_mean = NaN, noise_variance = NaN\<rparr>
         else
           (let m = fdiv total (real (length pixels))
            in \<lparr>noise_mean = Fin m,
                noise_variance = Fin (fsub (fdiv sumSquares (real (length pixels))) (fmul m m))\<rparr>))"

record noiseAnalysis =
  hasInconsistentNoise :: bool
  noiseError :: "string option"
  noiseMetricsOf :: "noiseMetrics option"

definition analyzeNoise :: "codec \<Rightarrow> noiseAnalysis" where
  "analyzeNoise c =
     (case noiseRaw c of
        Inl err \<Rightarrow> \<lparr>hasInconsistentNoise = False, noiseError = Some err, noiseMetricsOf = None\<rparr>
      | Inr data \<Rightarrow>
          (let m = calculateNoiseMetrics data
           in \<lparr>hasInconsistentNoise = gt (noise_variance m) 1000, noiseError = None,
               noiseMetricsOf = Some m\<rparr>))"

subsection \<open>Edge analysis\<close>

record edgeMetrics =
  edgeRatio :: number
  averageEdgeIntensity :: double
  inconsistencyScore :: number

text \<open>The edge threshold: \<^verbatim>\<open>pixels[i] > 50\<close>.\<close>

definition isEdgePixel :: "byte \<Rightarrow> bool" where
  "isEdgePixel p = (50 < unat p)"

definition analyzeEdgeConsistency :: "byte list \<Rightarrow> edgeMetrics" where
  "analyzeEdgeConsistency pixels =
     (let edges = filter isEdgePixel pixels;
          edgePixels = length edges;
          totalIntensity = foldl (\<lambda>s p. fadd s (byteval p)) 0 edges;
          ratio = (if pixels = [] then NaN
                   else Fin (fdiv (real edgePixels) (real (length pixels))))
      in \<lparr>edgeRatio = ratio,
          averageEdgeIntensity =
            (if 0 < edgePixels then fdiv totalIntensity (real edgePixels) else 0),
          inconsistencyScore =
            (case ratio of NaN \<Rightarrow> NaN | Fin r \<Rightarrow> Fin \<bar>fsub r (lit (1/10))\<bar>)\<rparr>)"

record edgeAnalysis =
  hasInconsistentEdges :: bool
  edgeError :: "string option"
  edgeMetricsOf :: "edgeMetrics option"

definition analyzeEdges :: "codec \<Rightarrow> edgeAnalysis" where
  "analyzeEdges c =
     (case edgeRaw c of
        Inl err \<Rightarrow> \<lparr>hasInconsistentEdges = False, edgeError = Some err, edgeMetricsOf = None\<rparr>
      | Inr edgeData \<Rightarrow>
          (let m = analyzeEdgeConsistency edgeData
           in \<lparr>hasInconsistentEdges = gt (inconsistencyScore m) (lit (3/10)), edgeError = None,
               edgeMetricsOf = Some m\<rparr>))"

subsection \<open>Suspicious regions\<close>

datatype areaType = high_manipulation | medium_manipulation | low_manipulation | noise

text \<open>
  \<^verbatim>\<open>{x, y, width, height, confidence, type, intensity}\<close>, and \<^verbatim>\<open>mergedCount\<close> on the objects
  that \<^verbatim>\<open>mergeAreaGroup\<close> builds; the objects pushed by \<^verbatim>\<open>detectSuspiciousAreas\<close> have no
  such property (\<open>None\<close>). Coordinates and sizes are the integers the block loop produces.
\<close>

record suspiciousArea =
  area_x :: int
  area_y :: int
  area_width :: int
  area_height :: int
  confidence :: double
  area_type :: areaType
  intensity :: double
  mergedCount :: "nat option"

text \<open>The values of a loop \<^verbatim>\<open>for (v = 0; v < n; v += step)\<close>.\<close>

definition loopStarts :: "nat \<Rightarrow> nat \<Rightarrow> nat list" where
  "loopStarts n step = map (\<lambda>k. k * step) [0 ..< (n + step - 1) div step]"

text \<open>
  The pixels a block loop visits: rows \<open>startY \<le> y < startY + blockSize\<close>, columns
  \<open>startX \<le> x < startX + blockSize\<close>, those with \<^verbatim>\<open>x < imageWidth\<close> and
  \<^verbatim>\<open>y * imageWidth + x < data.length\<close>.
\<close>

definition blockPixels :: "byte list \<Rightarrow> nat \<Rightarrow> nat \<Rightarrow> nat \<Rightarrow> nat \<Rightarrow> byte list" where
  "blockPixels data startX startY blockSize imageWidth =
     concat (map (\<lambda>y. concat (map (\<lambda>x.
         if x < imageWidth \<and> y * imageWidth + x < length data
         then [data ! (y * imageWidth + x)] else [])
       [startX ..< startX + blockSize]))
     [startY ..< startY + blockSize])"

definition calculateBlockIntensity :: "byte list \<Rightarrow> nat \<Rightarrow> nat \<Rightarrow> nat \<Rightarrow> nat \<Rightarrow> double" where
  "calculateBlockIntensity data startX startY blockSize imageWidth =
     (let visited = blockPixels data startX startY blockSize imageWidth;
          totalIntensity = foldl (\<lambda>s p. fadd s (byteval p)) 0 visited;
          count = length visited
      in if 0 < count then fdiv totalIntensity (real count) else 0)"

definition classifySuspiciousArea :: "double \<Rightarrow> areaType" where
  "classifySuspiciousArea i =
     (if 200 < i then high_manipulation
      else if 150 < i then medium_manipulation
      else if 100 < i then low_manipulation
      else noise)"

definition areAreasNearby :: "suspiciousArea \<Rightarrow> suspiciousArea \<Rightarrow> double \<Rightarrow> bool" where
  "areAreasNearby area1 area2 threshold =
     (let centerX1 = fadd (of_int (area_x area1)) (fdiv (of_int (area_width area1)) 2);
          centerY1 = fadd (of_int (area_y area1)) (fdiv (of_int (area_height area1)) 2);
          centerX2 = fadd (of_int (area_x area2)) (fdiv (of_int (area_width area2)) 2);
          centerY2 = fadd (of_int (area_y area2)) (fdiv (of_int (area_height area2)) 2);
          distance = fsqrt (fadd (fpow2 (fsub centerX2 centerX1)) (fpow2 (fsub centerY2 centerY1)))
      in distance < threshold)"

text \<open>\<^verbatim>\<open>mergeAreaGroup\<close>; it is called on groups of two or more areas only.\<close>

definition mergeAreaGroup :: "suspiciousArea list \<Rightarrow> suspiciousArea" where
  "mergeAreaGroup grp =
     (let minX = Min (set (map area_x grp));
          minY = Min (set (map area_y grp));
          maxX = Max (set (map (\<lambda>a. area_x a + area_width a) grp));
          maxY = Max (set (map (\<lambda>a. area_y a + area_height a) grp));
          avgConfidence = fdiv (foldl (\<lambda>s a. fadd s (confidence a)) 0 grp) (real (length grp));
          avgIntensity = fdiv (foldl (\<lambda>s a. fadd s (intensity a)) 0 grp) (real (length grp))
      in \<lparr>area_x = minX, area_y = minY, area_width = maxX - minX, area_height = maxY - minY,
          confidence = avgConfidence, area_type = classifySuspiciousArea avgIntensity,
          intensity = avgIntensity, mergedCount = Some (length grp)\<rparr>)"

text \<open>
  \<^verbatim>\<open>mergeSuspiciousAreas\<close>. The state of the outer loop is the list \<open>merged\<close> and the set
  \<open>processed\<close> of indices; the inner loop over \<open>j = i + 1, ...\<close> grows the group \<open>grp\<close> of the
  seed \<open>areas[i]\<close> and marks what it absorbs.
\<close>

definition absorb ::
  "suspiciousArea list \<Rightarrow> nat \<Rightarrow> suspiciousArea list \<times> nat set \<Rightarrow> nat
     \<Rightarrow> suspiciousArea list \<times> nat set" where
  "absorb areas i st j =
     (case st of (grp, processed) \<Rightarrow>
        if j \<in> processed then (grp, processed)
        else if areAreasNearby (areas ! i) (areas ! j) 50
             then (grp @ [areas ! j], insert j processed)
             else (grp, processed))"

definition mergeStep ::
  "suspiciousArea list \<Rightarrow> suspiciousArea list \<times> nat set \<Rightarrow> nat
     \<Rightarrow> suspiciousArea list \<times> nat set" where
  "mergeStep areas st i =
     (case st of (merged, processed) \<Rightarrow>
        if i \<in> processed then (merged, processed)
        else
          (case foldl (absorb areas i) ([areas ! i], insert i processed) [i + 1 ..< length areas]
           of (grp, processed') \<Rightarrow>
             (merged @ [if 1 < length grp then mergeAreaGroup grp else areas ! i],
              processed')))"

definition mergeSuspiciousAreas :: "suspiciousArea list \<Rightarrow> suspiciousArea list" where
  "mergeSuspiciousAreas areas =
     take 20 (fst (foldl (mergeStep areas) ([], {}) [0 ..< length areas]))"

text \<open>
  \<^verbatim>\<open>detectSuspiciousAreas\<close>: 32 by 32 blocks of the greyscale ELA image, a block flagged when
  its mean intensity exceeds \<^verbatim>\<open>suspiciousAreaThreshold * 255\<close>. A rejected read is caught and
  gives the empty list.
\<close>

definition detectBlock ::
  "forgery_config \<Rightarrow> byte list \<Rightarrow> nat \<Rightarrow> nat \<Rightarrow> nat \<Rightarrow> nat \<Rightarrow> suspiciousArea list" where
  "detectBlock cfg data w h y x =
     (let blockSize = 32;
          blockIntensity = calculateBlockIntensity data x y blockSize w
      in if fmul (suspiciousAreaThreshold cfg) 255 < blockIntensity
         then [\<lparr>area_x = int x, area_y = int y,
                area_width = min (int blockSize) (int w - int x),
                area_height = min (int blockSize) (int h - int y),
                confidence = min (fdiv blockIntensity 255) 1,
                area_type = classifySuspiciousArea blockIntensity,
                intensity = blockIntensity, mergedCount = None\<rparr>]
         else [])"

definition flaggedBlocks :: "forgery_config \<Rightarrow> byte list \<Rightarrow> nat \<Rightarrow> nat \<Rightarrow> suspiciousArea list" where
  "flaggedBlocks cfg data w h =
     concat (map (\<lambda>y. concat (map (\<lambda>x. detectBlock cfg data w h y x) (loopStarts w 32)))
       (loopStarts h 32))"

definition detectSuspiciousAreas ::
  "forgery_config \<Rightarrow> codec \<Rightarrow> elaAnalysis \<Rightarrow> suspiciousArea list" where
  "detectSuspiciousAreas cfg c ela =
     (if elaImagePath ela = [] then []
      else (case elaGreyscale c (elaQuality cfg) of
              Inl err \<Rightarrow> []
            | Inr (data, w, h) \<Rightarrow> mergeSuspiciousAreas (flaggedBlocks cfg data w h)))"

subsection \<open>Aggregation and report\<close>

record analyses =
  elaAnalysisOf :: elaAnalysis
  compressionAnalysisOf :: compressionAnalysis
  metadataAnalysisOf :: metadataAnalysis
  noiseAnalysisOf :: noiseAnalysis
  edgeAnalysisOf :: edgeAnalysis
  suspiciousAreas :: "suspiciousArea list"

definition calculateForgeryScore :: "'a analyses_scheme \<Rightarrow> double" where
  "calculateForgeryScore a =
     (let score0 = 0;
          w_ela = lit (25/100); w_compression = lit (20/100); w_metadata = lit (15/100);
          w_noise = lit (20/100); w_edges = lit (10/100); w_suspiciousAreas = lit (10/100);
          score1 = (if hasAnomalies (elaAnalysisOf a)
                    then fadd score0 (fmul w_ela (lit (8/10))) else score0);
          score2 = (if hasInconsistentCompression (compressionAnalysisOf a)
                    then fadd score1 (fmul w_compression (lit (7/10))) else score1);
          score3 = (if hasInconsistentMetadata (metadataAnalysisOf a)
                    then fadd score2 (fmul w_metadata (lit (6/10))) else score2);
          score4 = (if hasInconsistentNoise (noiseAnalysisOf a)
                    then fadd score3 (fmul w_noise (lit (5/10))) else score3);
          score5 = (if hasInconsistentEdges (edgeAnalysisOf a)
                    then fadd score4 (fmul w_edges (lit (4/10))) else score4);
          suspiciousAreaScore = min (fdiv (real (length (suspiciousAreas a))) 10) 1;
          score6 = fadd score5 (fmul w_suspiciousAreas suspiciousAreaScore)
      in min score6 1)"

text \<open>
  The score in the words of the specification, to be compared with the code: for each
  flagged analyzer add weight times severity, add the weight of the suspicious areas times
  \<open>min(count / 10, 1)\<close>, clamp the sum to \<open>[0, 1]\<close>. The sum runs in the order of the
  list, in binary64.
\<close>

definition specForgeryScore :: "'a analyses_scheme \<Rightarrow> double" where
  "specForgeryScore a =
     (let flagged = filter fst
            [(hasAnomalies (elaAnalysisOf a), lit (25/100), lit (8/10)),
             (hasInconsistentCompression (compressionAnalysisOf a), lit (20/100), lit (7/10)),
             (hasInconsistentMetadata (metadataAnalysisOf a), lit (15/100), lit (6/10)),
             (hasInconsistentNoise (noiseAnalysisOf a), lit (20/100), lit (5/10)),
             (hasInconsistentEdges (edgeAnalysisOf a), lit (10/100), lit (4/10))];
          terms = map (\<lambda>(flag, weight, severity). fmul weight severity) flagged @
            [fmul (lit (10/100)) (min (fdiv (real (length (suspiciousAreas a))) 10) 1)]
      in max 0 (min 1 (foldl fadd 0 terms)))"

text \<open>
  \<^verbatim>\<open>generateDetailedAnalysis(forgeryScore, analyses)\<close>; of its second argument it reads the
  flags of the ELA, compression and metadata results and the number of suspicious areas.
\<close>

definition findings :: "'a analyses_scheme \<Rightarrow> string list" where
  "findings a =
     (if hasAnomalies (elaAnalysisOf a)
      then [''Error Level Analysis detected potential tampering areas''] else []) @
     (if hasInconsistentCompression (compressionAnalysisOf a)
      then [''Inconsistent JPEG compression patterns found''] else []) @
     (if hasInconsistentMetadata (metadataAnalysisOf a)
      then [''Metadata inconsistencies detected''] else []) @
     (if 5 < length (suspiciousAreas a)
      then [showNat (length (suspiciousAreas a)) @ '' suspicious regions identified''] else [])"

definition generateDetailedAnalysis :: "double \<Rightarrow> 'a analyses_scheme \<Rightarrow> string" where
  "generateDetailedAnalysis forgeryScore a =
     (if lit (8/10) < forgeryScore
      then ''HIGH RISK: Multiple forgery indicators detected. '' @ join (findings a) ''. '' @ ''.''
      else if lit (6/10) < forgeryScore
      then ''MEDIUM RISK: Some forgery indicators present. '' @ join (findings a) ''. '' @ ''.''
      else if lit (3/10) < forgeryScore
      then ''LOW RISK: Minor inconsistencies found. '' @ join (findings a) ''. '' @ ''.''
      else ''Document appears authentic with no significant tampering indicators.'')"

record forgeryAnalysis = analyses +
  isForgery :: bool
  forgeryScore :: double
  analysis :: string

text \<open>
  \<^verbatim>\<open>analyzeImage\<close>. Of the five promises only \<^verbatim>\<open>performELA\<close> can reject; the rejection is
  caught, logged and replaced by a new error. The other four analyzers catch their own
  failures and deliver a result object, unless a helper's \<^verbatim>\<open>'error'\<close> event ends the
  process. When the compression helper ends the process and a step of the error-level
  analysis rejects in the same run, which of the two comes first is left to the scheduler;
  the model lets the process end.
\<close>

definition analyzeImage ::
  "forgery_config \<Rightarrow> host \<Rightarrow> codec \<Rightarrow> store \<Rightarrow> string \<Rightarrow> forgeryAnalysis outcome" where
  "analyzeImage cfg h c st imagePath =
     (case analyzeCompression c of
        None \<Rightarrow> Terminated
      | Some compression \<Rightarrow>
          (case performELA cfg h c st imagePath of
             Terminated \<Rightarrow> Terminated
           | Thrown err st' \<Rightarrow> Thrown ''Failed to analyze image for forgery'' st'
           | Returned ela st' \<Rightarrow>
               (let metadata = analyzeMetadata h c;
                    noiseResult = analyzeNoise c;
                    edges = analyzeEdges c;
                    areas = detectSuspiciousAreas cfg c ela;
                    a = \<lparr>elaAnalysisOf = ela, compressionAnalysisOf = compression,
                         metadataAnalysisOf = metadata, noiseAnalysisOf = noiseResult,
                         edgeAnalysisOf = edges, suspiciousAreas = areas\<rparr>;
                    score = calculateForgeryScore a
                in Returned
                     \<lparr>elaAnalysisOf = ela, compressionAnalysisOf = compression,
                      metadataAnalysisOf = metadata, noiseAnalysisOf = noiseResult,
                      edgeAnalysisOf = edges, suspiciousAreas = areas,
                      isForgery = (lit (6/10) < score), forgeryScore = score,
                      analysis = generateDetailedAnalysis score a\<rparr>
                     st')))"

subsection \<open>Distances between areas\<close>

text \<open>
  The Euclidean distance between the centers of two bounding boxes, over the reals; the
  properties below compare it with what \<open>areAreasNearby\<close> computes in binary64.
\<close>

definition centerDistance :: "suspiciousArea \<Rightarrow> suspiciousArea \<Rightarrow> real" where
  "centerDistance a b =
     sqrt (((of_int (area_x b) + of_int (area_width b) / 2) -
            (of_int (area_x a) + of_int (area_width a) / 2))\<^sup>2 +
           ((of_int (area_y b) + of_int (area_height b) / 2) -
            (of_int (area_y a) + of_int (area_height a) / 2))\<^sup>2)"

text \<open>
  The boxes that the block loop of \<open>detectSuspiciousAreas\<close> can produce: integer coordinates
  and sizes that are not negative, below \<open>2\<^sup>5\<^sup>0\<close>, with a confidence and an intensity that are
  binary64 numbers.
\<close>

definition pixelBox :: "suspiciousArea \<Rightarrow> bool" where
  "pixelBox a \<longleftrightarrow>
     0 \<le> area_x a \<and> area_x a < 2 ^ 50 \<and> 0 \<le> area_y a \<and> area_y a < 2 ^ 50 \<and>
     0 \<le> area_width a \<and> area_width a \<le> 2 ^ 50 \<and>
     0 \<le> area_height a \<and> area_height a \<le> 2 ^ 50 \<and>
     rnd (confidence a) = confidence a \<and> rnd (intensity a) = intensity a"

subsection \<open>Sample inputs\<close>

text \<open>
  A one-pixel image \<^verbatim>\<open>doc.jpg\<close> whose EXIF block carries a creation date, a host whose
  clock reads \<open>t\<close>, and codecs on which single calls fail. In \<open>sampleWorld\<close> the outcomes
  of the calls depend on the file at the image path: the ELA image has no EXIF block.
\<close>

definition sampleCodec :: codec where
  "sampleCodec =
     \<lparr>elaCalls = (\<lambda>q. HelperOutput [1] (Inr [0])),
      elaGreyscale = (\<lambda>q. Inr ([0], 1, 1)),
      imageMetadata = Inr (Some \<lparr>DateTime = Some ''2030-01-01T00:00:00Z'', Software = None\<rparr>),
      compressionHelper = Reply (Fin 0),
      compressionMap = Inr [],
      noiseRaw = Inr [0],
      edgeRaw = Inr [0]\<rparr>"

definition sampleHost :: "int \<Rightarrow> host" where
  "sampleHost t =
     \<lparr>now = t,
      dateParse = (\<lambda>s. if s = ''2030-01-01T00:00:00Z'' then Some 1893456000000 else None),
      writeFile = (\<lambda>path. None)\<rparr>"

definition sampleStore :: store where
  "sampleStore = [''doc.jpg'' \<mapsto> [7], ''doc.webp'' \<mapsto> [7]]"

definition elaImageCodec :: codec where
  "elaImageCodec = sampleCodec\<lparr>imageMetadata := Inr None\<rparr>"

definition sampleWorld :: "bytes option \<Rightarrow> codec" where
  "sampleWorld f = (if f = Some [7] then sampleCodec else elaImageCodec)"

text \<open>
  Two runs in a row on the image at \<open>p\<close>, the clock reading \<open>t\<close> in the first and \<open>t'\<close>
  in the second; the second starts from the store that the first leaves.
\<close>

definition firstRun :: "int \<Rightarrow> string \<Rightarrow> forgeryAnalysis outcome" where
  "firstRun t p = analyzeImage config (sampleHost t) (sampleWorld (sampleStore p)) sampleStore p"

definition secondRun :: "int \<Rightarrow> int \<Rightarrow> string \<Rightarrow> forgeryAnalysis outcome" where
  "secondRun t t' p =
     (case storeOf (firstRun t p) of
        None \<Rightarrow> Terminated
      | Some st1 \<Rightarrow> analyzeImage config (sampleHost t') (sampleWorld (st1 p)) st1 p)"

definition elaFailingCodec :: codec where
  "elaFailingCodec = sampleCodec\<lparr>elaCalls := (\<lambda>q. ReencodeRejected ''Input file is missing'')\<rparr>"

definition helperExitCodec :: codec where
  "helperExitCodec = sampleCodec\<lparr>elaCalls := (\<lambda>q. HelperFailed ''Traceback'')\<rparr>"

definition helperErrorCodec :: codec where
  "helperErrorCodec = sampleCodec\<lparr>elaCalls := (\<lambda>q. HelperErrorEvent)\<rparr>"

definition degradedCodec :: codec where
  "degradedCodec =
     sampleCodec\<lparr>imageMetadata := Inl ''unsupported image format'',
                 compressionMap := Inl ''resize failed'',
                 noiseRaw := Inl ''greyscale failed'',
                 edgeRaw := Inl ''convolve failed''\<rparr>"

definition unparsableCodec :: codec where
  "unparsableCodec = sampleCodec\<lparr>compressionHelper := Unparsable\<rparr>"

definition sampleAnalyses :: analyses where
  "sampleAnalyses =
     \<lparr>elaAnalysisOf = \<lparr>elaImagePath = ''doc_ela.jpg'',
                        ela_statistics = analyzeELAStatistics [0], hasAnomalies = True\<rparr>,
      compressionAnalysisOf = degradedCompression ''resize failed'',
      metadataAnalysisOf = analyzeMetadata (sampleHost 0) sampleCodec,
      noiseAnalysisOf = analyzeNoise sampleCodec,
      edgeAnalysisOf = analyzeEdges sampleCodec,
      suspiciousAreas = []\<rparr>"

text \<open>Edge buffers of five bytes with two and with one byte above the edge threshold.\<close>

definition boundaryEdgeCodec :: codec where
  "boundaryEdgeCodec = sampleCodec\<lparr>edgeRaw := Inr [51, 51, 0, 0, 0]\<rparr>"

definition fewEdgesCodec :: codec where
  "fewEdgesCodec = sampleCodec\<lparr>edgeRaw := Inr [51, 0, 0, 0, 0]\<rparr>"

text \<open>Analyzer results with given flags and \<open>k\<close> suspicious areas.\<close>

definition sampleArea :: suspiciousArea where
  "sampleArea =
     \<lparr>area_x = 0, area_y = 0, area_width = 32, area_height = 32, confidence = 1,
      area_type = high_manipulation, intensity = 255, mergedCount = None\<rparr>"

definition flaggedAnalyses ::
  "bool \<Rightarrow> bool \<Rightarrow> bool \<Rightarrow> bool \<Rightarrow> bool \<Rightarrow> nat \<Rightarrow> analyses" where
  "flaggedAnalyses e c m n g k =
     \<lparr>elaAnalysisOf = \<lparr>elaImagePath = ''doc_ela.jpg'',
                        ela_statistics = analyzeELAStatistics [], hasAnomalies = e\<rparr>,
      compressionAnalysisOf = \<lparr>hasInconsistentCompression = c, compressionError = None,
                                compressionArtifactsOf = None, compressionPatternsOf = None\<rparr>,
      metadataAnalysisOf = \<lparr>hasInconsistentMetadata = m, metadataError = None\<rparr>,
      noiseAnalysisOf = \<lparr>hasInconsistentNoise = n, noiseError = None, noiseMetricsOf = None\<rparr>,
      edgeAnalysisOf = \<lparr>hasInconsistentEdges = g, edgeError = None, edgeMetricsOf = None\<rparr>,
      suspiciousAreas = replicate k sampleArea\<rparr>"

text \<open>
  The compression map of a black image, 13 by 13 blocks of quality 0, with a helper that
  reports six inconsistent blocks.
\<close>

definition blackMap :: "block list" where
  "blackMap =
     concat (map (\<lambda>y. map (\<lambda>x.
         \<lparr>block_x = x, block_y = y, block_width = 8, block_height = 8, quality = 0\<rparr>)
       (loopStarts 100 8)) (loopStarts 100 8))"

definition sixBlocksCodec :: codec where
  "sixBlocksCodec = sampleCodec\<lparr>compressionHelper := Reply (Fin 6), compressionMap := Inr blackMap\<rparr>"




text \<open>An ELA image of one white pixel.\<close>

definition brightPixelCodec :: codec where
  "brightPixelCodec =
     sampleCodec\<lparr>elaCalls := (\<lambda>q. HelperOutput [1] (Inr [255])),
                 elaGreyscale := (\<lambda>q. Inr ([255], 1, 1))\<rparr>"

definition brightPixelEla :: elaAnalysis where
  "brightPixelEla =
     \<lparr>elaImagePath = ''doc_ela.jpg'', ela_statistics = analyzeELAStatistics [255],
      hasAnomalies = True\<rparr>"


section \<open>Properties\<close>

subsection \<open>Evaluating the arithmetic on literals\<close>

lemmas rnd_literal =
  rnd_def [of 0] rnd_def [of 1] rnd_def [of "numeral n"] rnd_def [of "numeral a / numeral b"]
  rnd_def [of "1 / numeral b"]
  rnd_def [of "- 1"] rnd_def [of "- numeral n"] rnd_def [of "- (numeral a / numeral b)"]
  rnd_def [of "- (1 / numeral b)"]
  for n a b

lemmas ilog2_literal =
  ilog2_def [of 1] ilog2_def [of "numeral n"] ilog2_def [of "numeral a / numeral b"]
  ilog2_def [of "1 / numeral b"]
  for n a b

lemmas bitlen_literal =
  compute_bitlen [of 0] compute_bitlen [of 1] compute_bitlen [of "numeral n"]
  for n

lemma upt_0_numeral: "[0..<numeral n] = 0 # [Suc 0..<numeral n]"
  by (simp add: upt_rec)

lemma upt_1_numeral:
  "[Suc 0..<numeral n] = (if Suc 0 < numeral n then Suc 0 # [2..<numeral n] else [])"
  by (simp add: upt_rec [of "Suc 0"] numeral_2_eq_2)

lemmas upt_literal = upt_0_numeral upt_1_numeral

lemmas float_eval =
  rnd_literal ilog2_literal rne_def bitlen_literal Let_def power_int_minus
  fadd_def fsub_def fmul_def fdiv_def fpow2_def lit_def byteval_def gt_def

subsection \<open>Rounding to the nearest integer\<close>

lemma rne_lower: "\<lfloor>x\<rfloor> \<le> rne x"
  by (simp add: rne_def Let_def)

lemma rne_upper: "rne x \<le> \<lfloor>x\<rfloor> + 1"
  by (simp add: rne_def Let_def)

lemma rne_of_int [simp]: "rne (of_int k) = k"
  by (simp add: rne_def)

lemma rne_mono:
  assumes "x \<le> y"
  shows "rne x \<le> rne y"
proof (cases "\<lfloor>x\<rfloor> = \<lfloor>y\<rfloor>")
  case True
  with assms show ?thesis
    by (auto simp add: rne_def Let_def)
next
  case False
  with assms have "\<lfloor>x\<rfloor> < \<lfloor>y\<rfloor>"
    using floor_mono [of x y] by linarith
  then have "\<lfloor>x\<rfloor> + 1 \<le> \<lfloor>y\<rfloor>" by simp
  with rne_upper [of x] rne_lower [of y] show ?thesis by linarith
qed

lemma rne_minus: "rne (- x) = - rne x"
proof (cases "x = of_int \<lfloor>x\<rfloor>")
  case True
  then obtain k where k: "x = of_int k" ..
  have "rne (- of_int k) = rne (of_int (- k))" by simp
  also have "\<dots> = - k" by (rule rne_of_int)
  finally show ?thesis using k by simp
next
  case False
  then have lt: "of_int \<lfloor>x\<rfloor> < x"
    using of_int_floor_le [of x] by linarith
  have "\<lfloor>- x\<rfloor> = - \<lfloor>x\<rfloor> - 1"
  proof (rule floor_unique)
    show "of_int (- \<lfloor>x\<rfloor> - 1) \<le> - x"
      using floor_correct [of x] by simp linarith
    show "- x < of_int (- \<lfloor>x\<rfloor> - 1) + 1"
      using lt by simp
  qed
  then show ?thesis
    by (auto simp add: rne_def Let_def)
qed

subsection \<open>The binary exponent\<close>

lemma ilog2_bounds:
  assumes "0 < x"
  shows "2 powi (ilog2 x) \<le> x" and "x < 2 powi (ilog2 x + 1)"
proof -
  show "2 powi (ilog2 x) \<le> x"
  proof (cases "1 \<le> x")
    case True
    let ?m = "\<lfloor>x\<rfloor>"
    from True have m: "0 < ?m" by simp
    from bitlen_bounds [OF m] have "2 ^ nat (bitlen ?m - 1) \<le> ?m" by simp
    then have "(2::real) ^ nat (bitlen ?m - 1) \<le> of_int ?m"
      by (metis of_int_le_iff of_int_numeral of_int_power)
    also have "\<dots> \<le> x" by simp
    finally have "(2::real) ^ nat (bitlen ?m - 1) \<le> x" .
    moreover have "0 \<le> bitlen ?m - 1"
      using m by (simp add: bitlen_alt_def)
    ultimately show ?thesis
      using True by (simp add: ilog2_def power_int_nonneg_exp)
  next
    case False
    let ?n = "\<lceil>1 / x\<rceil>"
    let ?b = "bitlen (?n - 1)"
    from False assms have y: "1 < 1 / x" by simp
    then have n: "0 < ?n - 1" by (simp add: less_ceiling_iff)
    from bitlen_bounds [OF n] have "?n - 1 < 2 ^ nat ?b" by simp
    then have "?n \<le> 2 ^ nat ?b" by simp
    then have "of_int ?n \<le> (2::real) ^ nat ?b"
      by (metis of_int_le_iff of_int_numeral of_int_power)
    moreover have "1 / x \<le> of_int ?n" by simp
    ultimately have "1 / x \<le> 2 ^ nat ?b" by linarith
    with assms have "1 / 2 ^ nat ?b \<le> x"
      by (simp add: field_simps)
    moreover have "0 \<le> ?b" by (rule bitlen_nonneg)
    ultimately show ?thesis
      using False by (simp add: ilog2_def power_int_minus power_int_nonneg_exp inverse_eq_divide)
  qed
  show "x < 2 powi (ilog2 x + 1)"
  proof (cases "1 \<le> x")
    case True
    let ?m = "\<lfloor>x\<rfloor>"
    from True have m: "0 < ?m" by simp
    from bitlen_bounds [OF m] have "?m < 2 ^ nat (bitlen ?m)" by simp
    then have "?m + 1 \<le> 2 ^ nat (bitlen ?m)" by simp
    then have "of_int (?m + 1) \<le> (2::real) ^ nat (bitlen ?m)"
      by (metis of_int_le_iff of_int_numeral of_int_power)
    moreover have "x < of_int (?m + 1)" by simp
    ultimately have "x < 2 ^ nat (bitlen ?m)" by linarith
    moreover have "0 \<le> bitlen ?m" by (rule bitlen_nonneg)
    ultimately show ?thesis
      using True by (simp add: ilog2_def power_int_nonneg_exp)
  next
    case False
    let ?n = "\<lceil>1 / x\<rceil>"
    let ?b = "bitlen (?n - 1)"
    from False assms have y: "1 < 1 / x" by simp
    then have n: "0 < ?n - 1" by (simp add: less_ceiling_iff)
    then have b1: "1 \<le> ?b" by (simp add: bitlen_alt_def)
    from bitlen_bounds [OF n] have "2 ^ nat (?b - 1) \<le> ?n - 1" by simp
    then have "(2::real) ^ nat (?b - 1) \<le> of_int (?n - 1)"
      by (metis of_int_le_iff of_int_numeral of_int_power)
    moreover have "of_int (?n - 1) < 1 / x"
      using ceiling_correct [of "1 / x"] by simp
    ultimately have "2 ^ nat (?b - 1) < 1 / x" by linarith
    with assms have "x < 1 / 2 ^ nat (?b - 1)"
      by (simp add: field_simps)
    moreover have "(2::real) powi (- (?b - 1)) = 1 / 2 ^ nat (?b - 1)"
      using b1 by (simp only: power_int_minus inverse_eq_divide) (simp add: power_int_nonneg_exp)
    moreover have "ilog2 x + 1 = - (?b - 1)"
      using False by (simp add: ilog2_def)
    ultimately show ?thesis by (simp only:)
  qed
qed

lemma two_powi_pos [simp]: "0 < (2::real) powi k"
  by (simp add: power_int_def)

lemma two_powi_mono: "i \<le> j \<Longrightarrow> (2::real) powi i \<le> 2 powi j"
  by (rule power_int_increasing) simp_all

lemma two_powi_less_cancel: "(2::real) powi i < 2 powi j \<Longrightarrow> i < j"
  using two_powi_mono [of j i] by (cases "i < j") auto

lemma ilog2_unique:
  assumes "2 powi e \<le> x" and "x < 2 powi (e + 1)"
  shows "ilog2 x = e"
proof -
  have pos: "0 < x" using assms(1) two_powi_pos [of e] by linarith
  note b = ilog2_bounds [OF pos]
  have "(2::real) powi e < 2 powi (ilog2 x + 1)" using assms(1) b(2) by linarith
  then have 1: "e < ilog2 x + 1" by (rule two_powi_less_cancel)
  have "(2::real) powi (ilog2 x) < 2 powi (e + 1)" using assms(2) b(1) by linarith
  then have 2: "ilog2 x < e + 1" by (rule two_powi_less_cancel)
  from 1 2 show ?thesis by simp
qed

lemma ilog2_mono:
  assumes "0 < x" and "x \<le> y"
  shows "ilog2 x \<le> ilog2 y"
proof -
  have y: "0 < y" using assms by linarith
  have "2 powi (ilog2 x) \<le> x" using ilog2_bounds(1) [OF assms(1)] .
  also have "\<dots> \<le> y" by fact
  also have "\<dots> < 2 powi (ilog2 y + 1)" using ilog2_bounds(2) [OF y] .
  finally have "ilog2 x < ilog2 y + 1" by (rule two_powi_less_cancel)
  then show ?thesis by simp
qed

subsection \<open>Rounding to binary64\<close>

lemma rnd_zero [simp]: "rnd 0 = 0"
  by (simp add: rnd_def)

lemma rnd_minus: "rnd (- x) = - rnd x"
  by (simp add: rnd_def Let_def rne_minus)

lemma rnd_pos_eq:
  assumes "0 < x"
  shows "rnd x = of_int (rne (x * 2 powi (52 - ilog2 x))) * 2 powi (ilog2 x - 52)"
  using assms by (simp add: rnd_def Let_def)

lemma scaled_bounds:
  assumes "0 < x"
  shows "2 ^ 52 \<le> x * 2 powi (52 - ilog2 x)" and "x * 2 powi (52 - ilog2 x) < 2 ^ 53"
proof -
  let ?e = "ilog2 x"
  have c: "0 < (2::real) powi (52 - ?e)" by simp
  have "2 powi ?e * 2 powi (52 - ?e) \<le> x * 2 powi (52 - ?e)"
    using ilog2_bounds(1) [OF assms] c by (simp only: mult_le_cancel_right_pos)
  moreover have "(2::real) powi ?e * 2 powi (52 - ?e) = 2 ^ 52"
    by (simp add: power_int_add [symmetric])
  ultimately show "2 ^ 52 \<le> x * 2 powi (52 - ?e)" by simp
  have "x * 2 powi (52 - ?e) < 2 powi (?e + 1) * 2 powi (52 - ?e)"
    using ilog2_bounds(2) [OF assms] c by (simp only: mult_less_cancel_right_pos)
  moreover have "(2::real) powi (?e + 1) * 2 powi (52 - ?e) = 2 ^ 53"
    by (simp add: power_int_add [symmetric])
  ultimately show "x * 2 powi (52 - ?e) < 2 ^ 53" by simp
qed

lemma rne_scaled_bounds:
  assumes "0 < x"
  shows "2 ^ 52 \<le> rne (x * 2 powi (52 - ilog2 x))" and "rne (x * 2 powi (52 - ilog2 x)) \<le> 2 ^ 53"
proof -
  let ?s = "x * 2 powi (52 - ilog2 x)"
  have "rne (of_int (2 ^ 52)) \<le> rne ?s"
    by (rule rne_mono) (use scaled_bounds(1) [OF assms] in simp)
  then show "2 ^ 52 \<le> rne ?s" by (simp only: rne_of_int)
  have "rne ?s \<le> rne (of_int (2 ^ 53))"
    by (rule rne_mono) (use scaled_bounds(2) [OF assms] in simp)
  then show "rne ?s \<le> 2 ^ 53" by (simp only: rne_of_int)
qed

lemma rnd_pos_bounds:
  assumes "0 < x"
  shows "2 powi (ilog2 x) \<le> rnd x" and "rnd x \<le> 2 powi (ilog2 x + 1)"
proof -
  let ?e = "ilog2 x"
  let ?r = "rne (x * 2 powi (52 - ?e))"
  have c: "0 < (2::real) powi (?e - 52)" by simp
  have "(2::real) ^ 52 \<le> of_int ?r"
    using rne_scaled_bounds(1) [OF assms]
    by (metis of_int_le_iff of_int_numeral of_int_power)
  then have "(2::real) ^ 52 * 2 powi (?e - 52) \<le> of_int ?r * 2 powi (?e - 52)"
    using c by (simp only: mult_le_cancel_right_pos)
  moreover have "(2::real) ^ 52 * 2 powi (?e - 52) = 2 powi ?e"
    using power_int_add [of "2::real" 52 "?e - 52"] by simp
  ultimately have "(2::real) powi ?e \<le> of_int ?r * 2 powi (?e - 52)"
    by (simp only:)
  then show "2 powi ?e \<le> rnd x"
    by (simp only: rnd_pos_eq [OF assms])
  have "of_int ?r \<le> (2::real) ^ 53"
    using rne_scaled_bounds(2) [OF assms]
    by (metis of_int_le_iff of_int_numeral of_int_power)
  then have "of_int ?r * 2 powi (?e - 52) \<le> (2::real) ^ 53 * 2 powi (?e - 52)"
    using c by (simp only: mult_le_cancel_right_pos)
  moreover have "(2::real) ^ 53 * 2 powi (?e - 52) = 2 powi (?e + 1)"
    using power_int_add [of "2::real" 53 "?e - 52"] by (simp add: add.commute)
  ultimately have "of_int ?r * 2 powi (?e - 52) \<le> (2::real) powi (?e + 1)"
    by (simp only:)
  then show "rnd x \<le> 2 powi (?e + 1)"
    by (simp only: rnd_pos_eq [OF assms])
qed

lemma rnd_pos: "0 < x \<Longrightarrow> 0 < rnd x"
  using rnd_pos_bounds(1) [of x] two_powi_pos [of "ilog2 x"] by linarith

lemma rnd_mono_pos:
  assumes "0 < x" and "x \<le> y"
  shows "rnd x \<le> rnd y"
proof -
  have y: "0 < y" using assms by linarith
  have le: "ilog2 x \<le> ilog2 y" by (rule ilog2_mono) fact+
  show ?thesis
  proof (cases "ilog2 x = ilog2 y")
    case True
    let ?e = "ilog2 y"
    have "x * 2 powi (52 - ?e) \<le> y * 2 powi (52 - ?e)"
      using assms(2) by (simp add: mult_right_mono)
    then have "rne (x * 2 powi (52 - ?e)) \<le> rne (y * 2 powi (52 - ?e))"
      by (rule rne_mono)
    then have "(of_int (rne (x * 2 powi (52 - ?e))) :: real) \<le> of_int (rne (y * 2 powi (52 - ?e)))"
      by simp
    then have "of_int (rne (x * 2 powi (52 - ?e))) * 2 powi (?e - 52)
        \<le> of_int (rne (y * 2 powi (52 - ?e))) * (2::real) powi (?e - 52)"
      by (rule mult_right_mono) simp
    then show ?thesis
      using True by (simp add: rnd_pos_eq [OF assms(1)] rnd_pos_eq [OF y])
  next
    case False
    with le have "ilog2 x + 1 \<le> ilog2 y" by simp
    then have "(2::real) powi (ilog2 x + 1) \<le> 2 powi (ilog2 y)" by (rule two_powi_mono)
    with rnd_pos_bounds(2) [OF assms(1)] rnd_pos_bounds(1) [OF y] show ?thesis
      by linarith
  qed
qed

lemma rnd_mono:
  assumes "x \<le> y"
  shows "rnd x \<le> rnd y"
proof -
  consider "0 < x" | "x \<le> 0" "0 < y" | "y < 0" | "x < 0" "y = 0" | "x = 0" "y = 0"
    using assms by linarith
  then show ?thesis
  proof cases
    case 1
    then show ?thesis using assms by (rule rnd_mono_pos)
  next
    case 2
    have "rnd x \<le> 0"
    proof (cases "x = 0")
      case True
      then show ?thesis by simp
    next
      case False
      with 2 have "0 < - x" by simp
      then have "0 < rnd (- x)" by (rule rnd_pos)
      then show ?thesis by (simp add: rnd_minus)
    qed
    moreover have "0 < rnd y" using 2 by (simp add: rnd_pos)
    ultimately show ?thesis by linarith
  next
    case 3
    then have "0 < - y" "- y \<le> - x" using assms by simp_all
    then have "rnd (- y) \<le> rnd (- x)" by (rule rnd_mono_pos)
    then show ?thesis by (simp add: rnd_minus)
  next
    case 4
    then have "0 < rnd (- x)" by (simp add: rnd_pos)
    then show ?thesis using 4 by (simp add: rnd_minus)
  next
    case 5
    then show ?thesis by simp
  qed
qed

lemma rnd_nonneg: "0 \<le> x \<Longrightarrow> 0 \<le> rnd x"
  using rnd_mono [of 0 x] by simp

text \<open>A value \<open>m * 2 ^ k\<close> with \<open>\<bar>m\<bar> < 2 ^ 53\<close> is a double: rounding leaves it as it is.\<close>

lemma rnd_exact_pos:
  assumes "0 < m" and "m < 2 ^ 53"
  shows "rnd (of_int m * 2 powi k) = of_int m * 2 powi k"
proof -
  let ?x = "of_int m * (2::real) powi k"
  let ?e = "ilog2 ?x"
  have x: "0 < ?x" using assms(1) by simp
  have "(of_int m :: real) < 2 ^ 53"
    using assms(2) by (metis of_int_less_iff of_int_numeral of_int_power)
  then have "?x < 2 ^ 53 * 2 powi k"
    by (simp only: mult_less_cancel_right_pos two_powi_pos)
  also have "(2::real) ^ 53 * 2 powi k = 2 powi (k + 53)"
    using power_int_add [of "2::real" 53 k] by (simp add: add.commute)
  finally have "2 powi ?e < (2::real) powi (k + 53)"
    using ilog2_bounds(1) [OF x] by linarith
  then have "?e < k + 53" by (rule two_powi_less_cancel)
  then have n: "0 \<le> k + 52 - ?e" by simp
  have "?x * 2 powi (52 - ?e) = of_int m * (2 powi k * 2 powi (52 - ?e))"
    by simp
  also have "(2::real) powi k * 2 powi (52 - ?e) = 2 powi (k + 52 - ?e)"
    using power_int_add [of "2::real" k "52 - ?e"] by (simp add: algebra_simps)
  also have "\<dots> = 2 ^ nat (k + 52 - ?e)"
    using n by (simp add: power_int_nonneg_exp)
  finally have "?x * 2 powi (52 - ?e) = of_int (m * 2 ^ nat (k + 52 - ?e))"
    by simp
  then have "rne (?x * 2 powi (52 - ?e)) = m * 2 ^ nat (k + 52 - ?e)"
    by (simp only: rne_of_int)
  then have "rnd ?x = of_int (m * 2 ^ nat (k + 52 - ?e)) * 2 powi (?e - 52)"
    by (simp only: rnd_pos_eq [OF x])
  also have "\<dots> = of_int m * (2 powi (k + 52 - ?e) * 2 powi (?e - 52))"
    using n by (simp add: power_int_nonneg_exp)
  also have "(2::real) powi (k + 52 - ?e) * 2 powi (?e - 52) = 2 powi k"
    using power_int_add [of "2::real" "k + 52 - ?e" "?e - 52"] by simp
  finally show ?thesis .
qed

lemma rnd_exact:
  assumes "\<bar>m\<bar> < 2 ^ 53"
  shows "rnd (of_int m * 2 powi k) = of_int m * 2 powi k"
proof -
  consider "0 < m" | "m = 0" | "m < 0" by linarith
  then show ?thesis
  proof cases
    case 1
    then show ?thesis using assms by (simp add: rnd_exact_pos)
  next
    case 2
    then show ?thesis by simp
  next
    case 3
    then have "rnd (of_int (- m) * 2 powi k) = of_int (- m) * 2 powi k"
      using assms by (intro rnd_exact_pos) simp_all
    then have "rnd (- (of_int m * 2 powi k)) = - (of_int m * 2 powi k)"
      by simp
    then show ?thesis by (simp only: rnd_minus neg_equal_iff_equal)
  qed
qed

lemma rnd_of_int: "\<bar>m\<bar> < 2 ^ 53 \<Longrightarrow> rnd (of_int m) = of_int m"
  using rnd_exact [of m 0] by simp

lemma rnd_of_nat: "n < 2 ^ 53 \<Longrightarrow> rnd (of_nat n) = of_nat n"
  using rnd_of_int [of "int n"] by simp

lemma rnd_idem: "rnd (rnd x) = rnd x"
proof -
  have pos: "rnd (rnd x) = rnd x" if x: "0 < x" for x
  proof -
    let ?e = "ilog2 x"
    let ?r = "rne (x * 2 powi (52 - ?e))"
    have eq: "rnd x = of_int ?r * 2 powi (?e - 52)" by (rule rnd_pos_eq [OF x])
    show ?thesis
    proof (cases "?r = 2 ^ 53")
      case True
      then have "rnd x = of_int (2 ^ 52) * 2 powi (?e - 51)"
        using eq power_int_add [of "2::real" 1 "?e - 52"] by simp
      moreover have "rnd (of_int (2 ^ 52) * 2 powi (?e - 51)) = of_int (2 ^ 52) * 2 powi (?e - 51)"
        by (rule rnd_exact) simp
      ultimately show ?thesis by simp
    next
      case False
      with rne_scaled_bounds [OF x] have "\<bar>?r\<bar> < 2 ^ 53" by simp
      then have "rnd (of_int ?r * 2 powi (?e - 52)) = of_int ?r * 2 powi (?e - 52)"
        by (rule rnd_exact)
      with eq show ?thesis by simp
    qed
  qed
  consider "0 < x" | "x = 0" | "x < 0" by linarith
  then show ?thesis
  proof cases
    case 1
    then show ?thesis by (rule pos)
  next
    case 2
    then show ?thesis by simp
  next
    case 3
    then have "rnd (rnd (- x)) = rnd (- x)" by (intro pos) simp
    then show ?thesis by (simp add: rnd_minus)
  qed
qed

subsection \<open>The forgery score\<close>

lemma add_if_mono:
  assumes "rnd s = s" and "rnd t = t" and "s \<le> t" and "0 \<le> w" and "fa \<longrightarrow> fb"
  shows "(if fa then fadd s w else s) \<le> (if fb then fadd t w else t)"
proof -
  have 1: "fadd s w \<le> fadd t w"
    unfolding fadd_def using assms(3) by (intro rnd_mono) simp
  have "rnd t \<le> rnd (t + w)" using assms(4) by (intro rnd_mono) simp
  then have 2: "s \<le> fadd t w" using assms(2,3) by (simp add: fadd_def)
  show ?thesis using 1 2 assms(3,5) by auto
qed

lemma add_if_double:
  "rnd s = s \<Longrightarrow> rnd (if f then fadd s w else s) = (if f then fadd s w else s)"
  by (simp add: fadd_def rnd_idem)

lemma weight_nonneg: "0 \<le> q \<Longrightarrow> 0 \<le> r \<Longrightarrow> 0 \<le> fmul (lit q) (lit r)"
  by (simp add: fmul_def lit_def rnd_nonneg)

lemma calculateForgeryScore_mono:
  assumes "hasAnomalies (elaAnalysisOf a) \<longrightarrow> hasAnomalies (elaAnalysisOf b)"
    and "hasInconsistentCompression (compressionAnalysisOf a) \<longrightarrow>
         hasInconsistentCompression (compressionAnalysisOf b)"
    and "hasInconsistentMetadata (metadataAnalysisOf a) \<longrightarrow>
         hasInconsistentMetadata (metadataAnalysisOf b)"
    and "hasInconsistentNoise (noiseAnalysisOf a) \<longrightarrow> hasInconsistentNoise (noiseAnalysisOf b)"
    and "hasInconsistentEdges (edgeAnalysisOf a) \<longrightarrow> hasInconsistentEdges (edgeAnalysisOf b)"
    and "length (suspiciousAreas a) \<le> length (suspiciousAreas b)"
  shows "calculateForgeryScore a \<le> calculateForgeryScore b"
proof -
  let ?w1 = "fmul (lit (25/100)) (lit (8/10))"
  let ?w2 = "fmul (lit (20/100)) (lit (7/10))"
  let ?w3 = "fmul (lit (15/100)) (lit (6/10))"
  let ?w4 = "fmul (lit (20/100)) (lit (5/10))"
  let ?w5 = "fmul (lit (10/100)) (lit (4/10))"
  define a1 where "a1 = (if hasAnomalies (elaAnalysisOf a) then fadd 0 ?w1 else 0)"
  define b1 where "b1 = (if hasAnomalies (elaAnalysisOf b) then fadd 0 ?w1 else 0)"
  define a2 where "a2 = (if hasInconsistentCompression (compressionAnalysisOf a) then fadd a1 ?w2 else a1)"
  define b2 where "b2 = (if hasInconsistentCompression (compressionAnalysisOf b) then fadd b1 ?w2 else b1)"
  define a3 where "a3 = (if hasInconsistentMetadata (metadataAnalysisOf a) then fadd a2 ?w3 else a2)"
  define b3 where "b3 = (if hasInconsistentMetadata (metadataAnalysisOf b) then fadd b2 ?w3 else b2)"
  define a4 where "a4 = (if hasInconsistentNoise (noiseAnalysisOf a) then fadd a3 ?w4 else a3)"
  define b4 where "b4 = (if hasInconsistentNoise (noiseAnalysisOf b) then fadd b3 ?w4 else b3)"
  define a5 where "a5 = (if hasInconsistentEdges (edgeAnalysisOf a) then fadd a4 ?w5 else a4)"
  define b5 where "b5 = (if hasInconsistentEdges (edgeAnalysisOf b) then fadd b4 ?w5 else b4)"
  define ta where "ta = fmul (lit (10/100)) (min (fdiv (real (length (suspiciousAreas a))) 10) 1)"
  define tb where "tb = fmul (lit (10/100)) (min (fdiv (real (length (suspiciousAreas b))) 10) 1)"
  have ea: "calculateForgeryScore a = min (fadd a5 ta) 1"
    by (simp only: calculateForgeryScore_def Let_def a1_def a2_def a3_def a4_def a5_def ta_def)
  have eb: "calculateForgeryScore b = min (fadd b5 tb) 1"
    by (simp only: calculateForgeryScore_def Let_def b1_def b2_def b3_def b4_def b5_def tb_def)
  have d1: "rnd a1 = a1" "rnd b1 = b1"
    unfolding a1_def b1_def by (rule add_if_double, simp)+
  have m1: "a1 \<le> b1"
    unfolding a1_def b1_def
    by (rule add_if_mono) (use assms(1) in \<open>simp_all add: weight_nonneg\<close>)
  have d2: "rnd a2 = a2" "rnd b2 = b2"
    unfolding a2_def b2_def by (rule add_if_double, rule d1)+
  have m2: "a2 \<le> b2"
    unfolding a2_def b2_def
    by (rule add_if_mono) (use assms(2) d1 m1 in \<open>simp_all add: weight_nonneg\<close>)
  have d3: "rnd a3 = a3" "rnd b3 = b3"
    unfolding a3_def b3_def by (rule add_if_double, rule d2)+
  have m3: "a3 \<le> b3"
    unfolding a3_def b3_def
    by (rule add_if_mono) (use assms(3) d2 m2 in \<open>simp_all add: weight_nonneg\<close>)
  have d4: "rnd a4 = a4" "rnd b4 = b4"
    unfolding a4_def b4_def by (rule add_if_double, rule d3)+
  have m4: "a4 \<le> b4"
    unfolding a4_def b4_def
    by (rule add_if_mono) (use assms(4) d3 m3 in \<open>simp_all add: weight_nonneg\<close>)
  have m5: "a5 \<le> b5"
    unfolding a5_def b5_def
    by (rule add_if_mono) (use assms(5) d4 m4 in \<open>simp_all add: weight_nonneg\<close>)
  have "real (length (suspiciousAreas a)) / 10 \<le> real (length (suspiciousAreas b)) / 10"
    using assms(6) by simp
  then have "fdiv (real (length (suspiciousAreas a))) 10 \<le> fdiv (real (length (suspiciousAreas b))) 10"
    unfolding fdiv_def by (rule rnd_mono)
  then have "min (fdiv (real (length (suspiciousAreas a))) 10) 1
      \<le> min (fdiv (real (length (suspiciousAreas b))) 10) 1"
    by simp
  moreover have "0 \<le> lit (10/100)" by (simp add: lit_def rnd_nonneg)
  ultimately have mt: "ta \<le> tb"
    unfolding ta_def tb_def fmul_def by (intro rnd_mono mult_left_mono)
  have "fadd a5 ta \<le> fadd b5 tb"
    unfolding fadd_def using m5 mt by (intro rnd_mono add_mono)
  then show ?thesis
    unfolding ea eb by simp
qed



lemma score_none: "calculateForgeryScore (flaggedAnalyses False False False False False 0) = 0"
  by (simp add: calculateForgeryScore_def flaggedAnalyses_def fadd_def fmul_def fdiv_def)


lemma calculateForgeryScore_nonneg: "0 \<le> calculateForgeryScore a"
proof -
  have "calculateForgeryScore (flaggedAnalyses False False False False False 0)
      \<le> calculateForgeryScore a"
    by (rule calculateForgeryScore_mono) (simp_all add: flaggedAnalyses_def)
  then show ?thesis by (simp only: score_none)
qed


lemma calculateForgeryScore_le_one: "calculateForgeryScore a \<le> 1"
  unfolding calculateForgeryScore_def Let_def by (rule min.cobounded2)


lemma score_as_sum: "calculateForgeryScore a = specForgeryScore a"
proof -
  have "specForgeryScore a = max 0 (calculateForgeryScore a)"
    by (cases "hasAnomalies (elaAnalysisOf a)";
        cases "hasInconsistentCompression (compressionAnalysisOf a)";
        cases "hasInconsistentMetadata (metadataAnalysisOf a)";
        cases "hasInconsistentNoise (noiseAnalysisOf a)";
        cases "hasInconsistentEdges (edgeAnalysisOf a)")
      (simp_all add: specForgeryScore_def calculateForgeryScore_def Let_def min.commute)
  then show ?thesis using calculateForgeryScore_nonneg [of a] by simp
qed


lemma score_all_flagged:
  "calculateForgeryScore (flaggedAnalyses True True True True True 10) =
     6034823500676464 / 9007199254740992"
  by (simp add: calculateForgeryScore_def flaggedAnalyses_def float_eval)


lemma lit_067: "lit (67/100) = 6034823500676465 / 9007199254740992"
  by (simp add: float_eval)


lemma score_cong:
  assumes "hasAnomalies (elaAnalysisOf a) = hasAnomalies (elaAnalysisOf b)"
    and "hasInconsistentCompression (compressionAnalysisOf a) =
         hasInconsistentCompression (compressionAnalysisOf b)"
    and "hasInconsistentMetadata (metadataAnalysisOf a) =
         hasInconsistentMetadata (metadataAnalysisOf b)"
    and "hasInconsistentNoise (noiseAnalysisOf a) = hasInconsistentNoise (noiseAnalysisOf b)"
    and "hasInconsistentEdges (edgeAnalysisOf a) = hasInconsistentEdges (edgeAnalysisOf b)"
    and "length (suspiciousAreas a) = length (suspiciousAreas b)"
  shows "calculateForgeryScore a = calculateForgeryScore b"
  by (simp only: calculateForgeryScore_def assms)

lemma analyzeImage_returns:
  assumes "elaCalls c (elaQuality cfg) = HelperOutput buffer (Inr px)"
    and "writeFile h (elaOutputPath p) = None"
    and "analyzeCompression c = Some compression"
  shows "\<exists>r. analyzeImage cfg h c st p = Returned r (st(elaOutputPath p \<mapsto> buffer))"
  using assms by (simp add: analyzeImage_def performELA_def Let_def)

lemma analyzeImage_Returned:
  assumes "analyzeImage cfg h c st p = Returned r st'"
  shows "\<exists>ela compression.
     performELA cfg h c st p = Returned ela st' \<and> analyzeCompression c = Some compression \<and>
     elaAnalysisOf r = ela \<and> compressionAnalysisOf r = compression \<and>
     metadataAnalysisOf r = analyzeMetadata h c \<and> noiseAnalysisOf r = analyzeNoise c \<and>
     edgeAnalysisOf r = analyzeEdges c \<and> suspiciousAreas r = detectSuspiciousAreas cfg c ela \<and>
     forgeryScore r =
       calculateForgeryScore
         \<lparr>elaAnalysisOf = ela, compressionAnalysisOf = compression,
          metadataAnalysisOf = analyzeMetadata h c, noiseAnalysisOf = analyzeNoise c,
          edgeAnalysisOf = analyzeEdges c,
          suspiciousAreas = detectSuspiciousAreas cfg c ela\<rparr> \<and>
     isForgery r = (lit (6/10) < forgeryScore r)"
proof (cases "analyzeCompression c")
  case None
  with assms show ?thesis by (simp add: analyzeImage_def)
next
  case (Some compression)
  show ?thesis
  proof (cases "performELA cfg h c st p")
    case Terminated
    with assms Some show ?thesis by (simp add: analyzeImage_def)
  next
    case (Thrown e st1)
    with assms Some show ?thesis by (simp add: analyzeImage_def)
  next
    case (Returned ela st1)
    with assms Some show ?thesis by (auto simp add: analyzeImage_def Let_def)
  qed
qed

lemma analyzeImage_score:
  assumes "analyzeImage cfg h c st p = Returned r st'"
  shows "forgeryScore r = calculateForgeryScore r \<and> isForgery r = (lit (6/10) < forgeryScore r)"
proof -
  from analyzeImage_Returned [OF assms] obtain ela compression where
    r: "elaAnalysisOf r = ela" "compressionAnalysisOf r = compression"
      "metadataAnalysisOf r = analyzeMetadata h c" "noiseAnalysisOf r = analyzeNoise c"
      "edgeAnalysisOf r = analyzeEdges c" "suspiciousAreas r = detectSuspiciousAreas cfg c ela"
      "forgeryScore r =
        calculateForgeryScore
          \<lparr>elaAnalysisOf = ela, compressionAnalysisOf = compression,
           metadataAnalysisOf = analyzeMetadata h c, noiseAnalysisOf = analyzeNoise c,
           edgeAnalysisOf = analyzeEdges c,
           suspiciousAreas = detectSuspiciousAreas cfg c ela\<rparr>"
      "isForgery r = (lit (6/10) < forgeryScore r)"
    by blast
  have "calculateForgeryScore r =
      calculateForgeryScore
        \<lparr>elaAnalysisOf = ela, compressionAnalysisOf = compression,
         metadataAnalysisOf = analyzeMetadata h c, noiseAnalysisOf = analyzeNoise c,
         edgeAnalysisOf = analyzeEdges c,
         suspiciousAreas = detectSuspiciousAreas cfg c ela\<rparr>"
    by (rule score_cong) (simp_all add: r)
  with r(7,8) show ?thesis by simp
qed

text \<open>
  C2. With weights and severities fixed, the score is monotone: when every analyzer flag
  set in the first assignment is set in the second and the second has at least as many
  suspicious areas, the second score is at least the first.
\<close>

theorem forgery_score_monotone:
  assumes "hasAnomalies (elaAnalysisOf a) \<longrightarrow> hasAnomalies (elaAnalysisOf b)"
    and "hasInconsistentCompression (compressionAnalysisOf a) \<longrightarrow>
         hasInconsistentCompression (compressionAnalysisOf b)"
    and "hasInconsistentMetadata (metadataAnalysisOf a) \<longrightarrow>
         hasInconsistentMetadata (metadataAnalysisOf b)"
    and "hasInconsistentNoise (noiseAnalysisOf a) \<longrightarrow> hasInconsistentNoise (noiseAnalysisOf b)"
    and "hasInconsistentEdges (edgeAnalysisOf a) \<longrightarrow> hasInconsistentEdges (edgeAnalysisOf b)"
    and "length (suspiciousAreas a) \<le> length (suspiciousAreas b)"
  shows "calculateForgeryScore a \<le> calculateForgeryScore b"
  using assms by (rule calculateForgeryScore_mono)

theorem forgery_score_monotone_witness:
  "calculateForgeryScore (flaggedAnalyses True False False True False 2)
     \<le> calculateForgeryScore (flaggedAnalyses True True False True False 7)"
  using forgery_score_monotone
    [of "flaggedAnalyses True False False True False 2"
        "flaggedAnalyses True True False True False 7"]
  by (simp add: flaggedAnalyses_def)

text \<open>
  C1, as amended. For every run of \<open>analyzeImage\<close> that completes, the forgery score is
  the binary64 sum, over the analyzers whose flag is true, of weight times severity, plus
  0.10 times \<open>min(suspiciousAreaCount / 10, 1)\<close>, clamped to \<open>[0, 1]\<close>, and \<open>isForgery\<close> is
  true exactly when the score exceeds 0.6. With all five analyzers flagged and ten
  suspicious areas the score is 6034823500676464 / 2^53, printed 0.6699999999999999, one
  unit in the last place below the double 0.67, and \<open>isForgery\<close> is true.
\<close>

theorem forgery_score_formula:
  "(analyzeImage cfg h c st p = Returned r st' \<longrightarrow>
      forgeryScore r = specForgeryScore r \<and> isForgery r = (lit (6/10) < forgeryScore r)) \<and>
   calculateForgeryScore a = specForgeryScore a \<and>
   0 \<le> calculateForgeryScore a \<and> calculateForgeryScore a \<le> 1 \<and>
   calculateForgeryScore (flaggedAnalyses True True True True True 10) =
     6034823500676464 / 2 ^ 53 \<and>
   lit (67/100) - calculateForgeryScore (flaggedAnalyses True True True True True 10) =
     1 / 2 ^ 53 \<and>
   lit (6/10) < calculateForgeryScore (flaggedAnalyses True True True True True 10)"
proof -
  have 1: "analyzeImage cfg h c st p = Returned r st' \<longrightarrow>
      forgeryScore r = specForgeryScore r \<and> isForgery r = (lit (6/10) < forgeryScore r)"
    using analyzeImage_score [of cfg h c st p r st'] by (simp add: score_as_sum)
  have 2: "lit (6/10) < (6034823500676464 / 9007199254740992 :: real)"
    by (simp add: float_eval)
  show ?thesis
    using 1 2 score_as_sum [of a] calculateForgeryScore_nonneg [of a]
      calculateForgeryScore_le_one [of a]
    by (simp add: score_all_flagged lit_067)
qed

theorem forgery_score_formula_witness:
  "\<exists>r st'. analyzeImage config (sampleHost 0) sampleCodec sampleStore ''doc.jpg'' = Returned r st' \<and>
       forgeryScore r = specForgeryScore r \<and> isForgery r = (lit (6/10) < forgeryScore r)"
proof -
  have "elaCalls sampleCodec (elaQuality config) = HelperOutput [1] (Inr [0])"
    "writeFile (sampleHost 0) (elaOutputPath ''doc.jpg'') = None"
    "\<exists>compression. analyzeCompression sampleCodec = Some compression"
    by (simp_all add: sampleCodec_def sampleHost_def analyzeCompression_def
          detectCompressionArtifacts_def)
  then obtain r st' where
    r: "analyzeImage config (sampleHost 0) sampleCodec sampleStore ''doc.jpg'' = Returned r st'"
    using analyzeImage_returns by blast
  with forgery_score_formula [of config "sampleHost 0" sampleCodec sampleStore "''doc.jpg''" r st']
  show ?thesis by blast
qed

text \<open>
  C1 as stated fails in its last part: with all five analyzers flagged and ten suspicious
  areas the score is not the double 0.67.
\<close>

theorem forgery_score_formula_counterexample:
  "calculateForgeryScore (flaggedAnalyses True True True True True 10) \<noteq> lit (67/100)"
  by (simp add: score_all_flagged lit_067)

subsection \<open>The edge flag\<close>

lemma edge_consts:
  "lit (3/10) < rnd (rnd (2/5) - lit (1/10))"
  "rnd (rnd (2/5 - 1 / (5 * 2 ^ 50)) - lit (1/10)) \<le> lit (3/10)"
  "rnd (0 - lit (1/10)) = - lit (1/10)"
  "lit (1/10) \<le> lit (3/10)"
  by (simp_all add: float_eval)

lemma inconsistencyScore_eq:
  assumes "pixels \<noteq> []"
  shows "inconsistencyScore (analyzeEdgeConsistency pixels) =
     Fin \<bar>fsub (fdiv (real (length (filter isEdgePixel pixels))) (real (length pixels)))
            (lit (1/10))\<bar>"
  using assms by (simp add: analyzeEdgeConsistency_def Let_def)

lemma edges_flag_iff:
  assumes "pixels \<noteq> []" and "length pixels < 2 ^ 50"
  shows "gt (inconsistencyScore (analyzeEdgeConsistency pixels)) (lit (3/10)) \<longleftrightarrow>
     2 * length pixels \<le> 5 * length (filter isEdgePixel pixels)"
proof -
  define e where "e = length (filter isEdgePixel pixels)"
  define n where "n = length pixels"
  define r where "r = fdiv (real e) (real n)"
  have n: "0 < n" "n < 2 ^ 50" using assms by (simp_all add: n_def)
  have score: "gt (inconsistencyScore (analyzeEdgeConsistency pixels)) (lit (3/10)) \<longleftrightarrow>
      lit (3/10) < \<bar>fsub r (lit (1/10))\<bar>"
    by (simp add: inconsistencyScore_eq [OF assms(1)] gt_def r_def e_def n_def)
  have r0: "0 \<le> r" unfolding r_def fdiv_def by (rule rnd_nonneg) simp
  show ?thesis
  proof (cases "2 * n \<le> 5 * e")
    case True
    then have "real (2 * n) \<le> real (5 * e)"
      by (simp only: of_nat_le_iff)
    then have "2 * real n \<le> 5 * real e" by simp
    then have "2 / 5 \<le> real e / real n"
      using n(1) by (simp add: field_simps)
    then have "rnd (2/5) \<le> r"
      unfolding r_def fdiv_def by (rule rnd_mono)
    then have "rnd (rnd (2/5) - lit (1/10)) \<le> fsub r (lit (1/10))"
      unfolding fsub_def by (intro rnd_mono) simp
    with edge_consts(1) have "lit (3/10) < \<bar>fsub r (lit (1/10))\<bar>" by linarith
    with True show ?thesis by (simp add: score e_def n_def)
  next
    case False
    then have "5 * e + 1 \<le> 2 * n" by simp
    then have "real (5 * e + 1) \<le> real (2 * n)"
      by (simp only: of_nat_le_iff)
    then have "5 * real e + 1 \<le> 2 * real n" by simp
    then have 1: "real e / real n \<le> 2 / 5 - 1 / (5 * real n)"
      using n(1) by (simp add: field_simps)
    have "n \<le> 2 ^ 50" using n(2) by simp
    then have "real n \<le> real (2 ^ 50)" by (simp only: of_nat_le_iff)
    then have "real n \<le> 2 ^ 50" by simp
    then have "1 / (5 * 2 ^ 50) \<le> 1 / (5 * real n)"
      using n(1) by (simp add: field_simps)
    with 1 have "real e / real n \<le> 2 / 5 - 1 / (5 * 2 ^ 50)" by linarith
    then have "r \<le> rnd (2 / 5 - 1 / (5 * 2 ^ 50))"
      unfolding r_def fdiv_def by (rule rnd_mono)
    then have "fsub r (lit (1/10)) \<le> rnd (rnd (2 / 5 - 1 / (5 * 2 ^ 50)) - lit (1/10))"
      unfolding fsub_def by (intro rnd_mono) simp
    with edge_consts(2) have up: "fsub r (lit (1/10)) \<le> lit (3/10)" by linarith
    have "rnd (0 - lit (1/10)) \<le> fsub r (lit (1/10))"
      unfolding fsub_def using r0 by (intro rnd_mono) simp
    with edge_consts(3,4) have "- lit (3/10) \<le> fsub r (lit (1/10))" by linarith
    with up have "\<not> lit (3/10) < \<bar>fsub r (lit (1/10))\<bar>" by linarith
    with False show ?thesis by (simp add: score e_def n_def)
  qed
qed

lemma edges_flag_empty: "\<not> gt (inconsistencyScore (analyzeEdgeConsistency [])) (lit (3/10))"
  by (simp add: analyzeEdgeConsistency_def gt_def)

text \<open>
  C10, as amended. For every non-empty edge buffer of fewer than 2^50 bytes,
  \<open>hasInconsistentEdges\<close> is true if and only if the pixels with intensity strictly above
  50 are at least two fifths of all pixels: the fraction 0.4 itself is flagged, because in
  binary64 \<open>0.4 - 0.1\<close> is 0.30000000000000004, above 0.3. The score \<open>\<bar>edgeRatio - 0.1\<bar>\<close>
  exceeds 0.3 on the high side only, so a buffer with few edge pixels is never flagged;
  neither is an empty buffer, whose ratio is NaN.
\<close>

theorem edge_flag_threshold:
  "(edgeRaw c = Inr pixels \<and> pixels \<noteq> [] \<and> length pixels < 2 ^ 50 \<longrightarrow>
      (hasInconsistentEdges (analyzeEdges c) \<longleftrightarrow>
         2 * length pixels \<le> 5 * length (filter isEdgePixel pixels))) \<and>
   (edgeRaw c = Inr [] \<longrightarrow> \<not> hasInconsistentEdges (analyzeEdges c))"
  using edges_flag_iff [of pixels] edges_flag_empty
  by (auto simp add: analyzeEdges_def Let_def)

theorem edge_flag_threshold_witness:
  "hasInconsistentEdges (analyzeEdges boundaryEdgeCodec) \<and>
   \<not> hasInconsistentEdges (analyzeEdges fewEdgesCodec) \<and>
   \<not> hasInconsistentEdges (analyzeEdges (sampleCodec\<lparr>edgeRaw := Inr []\<rparr>))"
  using edge_flag_threshold [of boundaryEdgeCodec "[51, 51, 0, 0, 0]"]
    edge_flag_threshold [of fewEdgesCodec "[51, 0, 0, 0, 0]"]
    edge_flag_threshold [of "sampleCodec\<lparr>edgeRaw := Inr []\<rparr>" "[]"]
  by (simp add: boundaryEdgeCodec_def fewEdgesCodec_def isEdgePixel_def)

text \<open>
  C10 as stated fails on the boundary: with two of five pixels above the threshold the
  fraction is 0.4, which does not exceed 0.4, and the flag is true.
\<close>

theorem edge_flag_threshold_counterexample:
  "\<not> (hasInconsistentEdges (analyzeEdges boundaryEdgeCodec) \<longleftrightarrow>
       4 / 10 < real (length (filter isEdgePixel [51, 51, 0, 0, 0])) /
                real (length [51, 51, 0, 0, 0 :: byte]))"
proof -
  have "hasInconsistentEdges (analyzeEdges boundaryEdgeCodec)"
    using edges_flag_iff [of "[51, 51, 0, 0, 0]"]
    by (simp add: analyzeEdges_def Let_def boundaryEdgeCodec_def isEdgePixel_def)
  then show ?thesis by (simp add: isEdgePixel_def)
qed

subsection \<open>The clock and the store\<close>

lemma sample_pixels: "blockPixels [0] 0 0 32 (Suc 0) = [0]"
  by (simp add: blockPixels_def upt_literal)

lemma sample_flagged: "flaggedBlocks config [0] (Suc 0) (Suc 0) = []"
  by (simp add: flaggedBlocks_def loopStarts_def detectBlock_def calculateBlockIntensity_def
        sample_pixels config_def float_eval)

lemma sample_paths:
  "elaOutputPath ''doc.jpg'' = ''doc_ela.jpg''" "elaOutputPath ''doc.webp'' = ''doc.webp''"
  by (simp_all add: elaOutputPath_def endsWith_def toLowerCase_def lowerChar_def)

text \<open>The ELA image is saved over the image unless the path has one of the three extensions.\<close>

lemma elaOutputPath_differs:
  "elaOutputPath p \<noteq> p \<longleftrightarrow>
     endsWith (toLowerCase p) ''.jpeg'' \<or> endsWith (toLowerCase p) ''.jpg'' \<or>
     endsWith (toLowerCase p) ''.png''"
proof -
  have d: "take (length p - k) p @ ''_ela.jpg'' \<noteq> p" if "k \<le> 5" for k
  proof
    assume "take (length p - k) p @ ''_ela.jpg'' = p"
    then have "length (take (length p - k) p @ ''_ela.jpg'') = length p" by simp
    then show False using that by simp
  qed
  show ?thesis
    using d [of 5] d [of 4] by (auto simp add: elaOutputPath_def Let_def)
qed

lemma sample_ela:
  "performELA config (sampleHost t) (sampleCodec\<lparr>imageMetadata := m\<rparr>) st p =
     Returned \<lparr>elaImagePath = elaOutputPath p, ela_statistics = analyzeELAStatistics [0],
               hasAnomalies = False\<rparr>
       (st(elaOutputPath p \<mapsto> [1]))"
  by (simp add: performELA_def sampleCodec_def sampleHost_def config_def analyzeELAStatistics_def
        Let_def float_eval)

lemma sample_areas:
  "detectSuspiciousAreas config (sampleCodec\<lparr>imageMetadata := m\<rparr>) ela = []"
  by (simp add: detectSuspiciousAreas_def sampleCodec_def sample_flagged mergeSuspiciousAreas_def)

lemma sample_compression:
  "\<exists>r. analyzeCompression (sampleCodec\<lparr>imageMetadata := m\<rparr>) = Some r \<and>
       \<not> hasInconsistentCompression r"
  by (cases m)
    (simp_all add: analyzeCompression_def detectCompressionArtifacts_def degradedCompression_def
       sampleCodec_def float_eval)

lemma sample_flags:
  "hasInconsistentMetadata (analyzeMetadata (sampleHost t) sampleCodec) \<longleftrightarrow> t < 1893456000000"
  "\<not> hasInconsistentMetadata (analyzeMetadata (sampleHost t) elaImageCodec)"
  "\<not> hasInconsistentNoise (analyzeNoise (sampleCodec\<lparr>imageMetadata := m\<rparr>))"
  "\<not> hasInconsistentEdges (analyzeEdges (sampleCodec\<lparr>imageMetadata := m\<rparr>))"
  by (simp_all add: analyzeMetadata_def checkMetadataConsistency_def
        analyzeNoise_def calculateNoiseMetrics_def analyzeEdges_def analyzeEdgeConsistency_def
        isEdgePixel_def sampleCodec_def elaImageCodec_def sampleHost_def float_eval)

lemma sample_flag_scores:
  "calculateForgeryScore (flaggedAnalyses False False True False False 0) =
     3242591731706757 / 36028797018963968"
  "calculateForgeryScore (flaggedAnalyses False False False False False 0) = 0"
  by (simp_all add: calculateForgeryScore_def flaggedAnalyses_def float_eval)

lemma sample_score:
  assumes "analyzeImage config h (sampleCodec\<lparr>imageMetadata := m\<rparr>) st p = Returned r st'"
  shows "forgeryScore r =
     (if hasInconsistentMetadata (analyzeMetadata h (sampleCodec\<lparr>imageMetadata := m\<rparr>))
      then 3242591731706757 / 36028797018963968 else 0)"
proof -
  let ?c = "sampleCodec\<lparr>imageMetadata := m\<rparr>"
  from analyzeImage_Returned [OF assms] obtain ela compression where
    r: "analyzeCompression ?c = Some compression"
      "elaAnalysisOf r = ela" "compressionAnalysisOf r = compression"
      "metadataAnalysisOf r = analyzeMetadata h ?c" "noiseAnalysisOf r = analyzeNoise ?c"
      "edgeAnalysisOf r = analyzeEdges ?c" "suspiciousAreas r = detectSuspiciousAreas config ?c ela"
      "performELA config h ?c st p = Returned ela st'"
    by blast
  have ela: "\<not> hasAnomalies ela"
    using r(8) by (auto simp add: performELA_def sampleCodec_def config_def
        analyzeELAStatistics_def Let_def float_eval split: option.splits)
  have comp: "\<not> hasInconsistentCompression compression"
    using sample_compression [of m] r(1) by auto
  have "calculateForgeryScore r =
      calculateForgeryScore
        (flaggedAnalyses False False (hasInconsistentMetadata (analyzeMetadata h ?c)) False False 0)"
    by (rule score_cong)
      (simp_all add: r ela comp sample_flags sample_areas flaggedAnalyses_def)
  moreover have "forgeryScore r = calculateForgeryScore r"
    using analyzeImage_score [OF assms] by simp
  ultimately show ?thesis
    by (cases "hasInconsistentMetadata (analyzeMetadata h ?c)") (simp_all add: sample_flag_scores)
qed

lemma sample_first_run:
  "\<exists>r. firstRun t p = Returned r (sampleStore(elaOutputPath p \<mapsto> [1]))"
proof -
  have "sampleCodec = sampleCodec\<lparr>imageMetadata := imageMetadata sampleCodec\<rparr>"
    by simp
  then have "\<exists>m. sampleCodec = sampleCodec\<lparr>imageMetadata := m\<rparr>" ..
  moreover have "\<exists>m. elaImageCodec = sampleCodec\<lparr>imageMetadata := m\<rparr>"
    unfolding elaImageCodec_def by (rule exI) (rule refl)
  moreover have "sampleWorld (sampleStore p) = sampleCodec \<or> sampleWorld (sampleStore p) = elaImageCodec"
    by (simp add: sampleWorld_def)
  ultimately have "\<exists>m. sampleWorld (sampleStore p) = sampleCodec\<lparr>imageMetadata := m\<rparr>"
    by metis
  then obtain m where m: "sampleWorld (sampleStore p) = sampleCodec\<lparr>imageMetadata := m\<rparr>"
    by blast
  obtain compression where "analyzeCompression (sampleCodec\<lparr>imageMetadata := m\<rparr>) = Some compression"
    using sample_compression [of m] by blast
  then show ?thesis
    unfolding firstRun_def m
    by (intro analyzeImage_returns [where px = "[0]"])
      (simp_all add: sampleCodec_def sampleHost_def)
qed

lemma analyzeMetadata_clock:
  assumes "dateParse h1 = dateParse h2"
    and "\<And>exif s t. imageMetadata c = Inr (Some exif) \<Longrightarrow> DateTime exif = Some s \<Longrightarrow>
           dateParse h1 s = Some t \<Longrightarrow> (now h1 < t) = (now h2 < t)"
  shows "analyzeMetadata h1 c = analyzeMetadata h2 c"
proof (cases "imageMetadata c")
  case (Inl e)
  then show ?thesis by (simp add: analyzeMetadata_def)
next
  case (Inr md)
  show ?thesis
  proof (cases md)
    case None
    with Inr show ?thesis
      by (simp add: analyzeMetadata_def checkMetadataConsistency_def)
  next
    case (Some exif)
    show ?thesis
    proof (cases "DateTime exif")
      case None
      with Inr Some show ?thesis
        by (simp add: analyzeMetadata_def checkMetadataConsistency_def)
    next
      case (Some s)
      note s = this
      show ?thesis
      proof (cases "dateParse h1 s")
        case None
        with Inr \<open>md = Some exif\<close> s assms(1) show ?thesis
          by (simp add: analyzeMetadata_def checkMetadataConsistency_def)
      next
        case (Some t)
        with assms(2) [OF _ s Some] Inr \<open>md = Some exif\<close> s assms(1) show ?thesis
          by (simp add: analyzeMetadata_def checkMetadataConsistency_def)
      qed
    qed
  qed
qed

lemma analyzeImage_clock:
  assumes "analyzeMetadata h1 c = analyzeMetadata h2 c" and "writeFile h1 = writeFile h2"
  shows "analyzeImage cfg h1 c st p = analyzeImage cfg h2 c st p"
  by (simp only: analyzeImage_def performELA_def assms)

text \<open>The store after a run: the store before it, with or without the saved ELA buffer.\<close>

lemma performELA_store:
  assumes "storeOf (performELA cfg h c st p) = Some st1"
  shows "st1 = st \<or> (\<exists>buffer. st1 = st(elaOutputPath p \<mapsto> buffer))"
  using assms
  by (auto simp add: performELA_def storeOf_def Let_def
        split: elaCallsOutcome.splits option.splits sum.splits)

lemma performELA_rerun:
  assumes "storeOf (performELA cfg h c st p) = Some st1"
  shows "performELA cfg h c st1 p = performELA cfg h c st p"
  using assms
  by (auto simp add: performELA_def storeOf_def Let_def
        split: elaCallsOutcome.splits option.splits sum.splits)

lemma analyzeImage_storeOf:
  assumes "storeOf (analyzeImage cfg h c st p) = Some st1"
  shows "storeOf (performELA cfg h c st p) = Some st1"
  using assms
  by (auto simp add: analyzeImage_def storeOf_def Let_def split: option.splits outcome.splits)

lemma analyzeImage_rerun:
  assumes "storeOf (analyzeImage cfg h c st p) = Some st1"
  shows "analyzeImage cfg h c st1 p = analyzeImage cfg h c st p"
  using performELA_rerun [OF analyzeImage_storeOf [OF assms]]
  by (simp only: analyzeImage_def)

text \<open>
  C8, as amended. The metadata analyzer compares the EXIF creation date with the clock, so
  the score depends on the time of the run. When the image path ends in \<^verbatim>\<open>.jpg\<close>,
  \<^verbatim>\<open>.jpeg\<close> or \<^verbatim>\<open>.png\<close>, so that the ELA image is saved beside the image, a second run on
  the same image with the same options ends as the first did, with the same analysis and
  forgery score, and leaves the store as the first left it, whenever the host parses dates
  and saves files alike in both and the two clock readings lie on the same side of the
  creation date; this covers equal readings and images without a creation date that
  parses. The outcomes of the codec calls are a function \<open>w\<close> of the file at the image path:
  the engine draws no random numbers.
\<close>

theorem analysis_deterministic_up_to_clock:
  assumes "elaOutputPath p \<noteq> p"
    and "dateParse h1 = dateParse h2" and "writeFile h1 = writeFile h2"
    and "\<forall>exif s t. imageMetadata (w (st p)) = Inr (Some exif) \<and> DateTime exif = Some s \<and>
           dateParse h1 s = Some t \<longrightarrow> (now h1 < t) = (now h2 < t)"
    and "storeOf (analyzeImage cfg h1 (w (st p)) st p) = Some st1"
  shows "analyzeImage cfg h2 (w (st1 p)) st1 p = analyzeImage cfg h1 (w (st p)) st p"
proof -
  have "st1 = st \<or> (\<exists>buffer. st1 = st(elaOutputPath p \<mapsto> buffer))"
    using assms(5) by (intro performELA_store analyzeImage_storeOf)
  then have same: "st1 p = st p" using assms(1) by auto
  have "analyzeMetadata h1 (w (st p)) = analyzeMetadata h2 (w (st p))"
    using assms(2,4) by (intro analyzeMetadata_clock) blast+
  then have "analyzeImage cfg h2 (w (st p)) st1 p = analyzeImage cfg h1 (w (st p)) st1 p"
    using assms(3) by (intro analyzeImage_clock [symmetric])
  also have "\<dots> = analyzeImage cfg h1 (w (st p)) st p"
    using assms(5) by (rule analyzeImage_rerun)
  finally show ?thesis by (simp only: same)
qed

theorem analysis_deterministic_up_to_clock_witness:
  "secondRun 0 1000 ''doc.jpg'' = firstRun 0 ''doc.jpg''"
proof -
  obtain r where r: "firstRun 0 ''doc.jpg'' = Returned r (sampleStore(''doc_ela.jpg'' \<mapsto> [1]))"
    using sample_first_run [of 0 "''doc.jpg''"] by (auto simp add: sample_paths)
  then have st: "storeOf (analyzeImage config (sampleHost 0) (sampleWorld (sampleStore ''doc.jpg''))
      sampleStore ''doc.jpg'') = Some (sampleStore(''doc_ela.jpg'' \<mapsto> [1]))"
    by (simp add: firstRun_def storeOf_def)
  have path: "elaOutputPath ''doc.jpg'' \<noteq> ''doc.jpg''"
    by (simp add: sample_paths)
  have host: "dateParse (sampleHost 0) = dateParse (sampleHost 1000)"
    "writeFile (sampleHost 0) = writeFile (sampleHost 1000)"
    by (simp_all add: sampleHost_def)
  have clock: "\<forall>exif s t. imageMetadata (sampleWorld (sampleStore ''doc.jpg'')) = Inr (Some exif) \<and>
      DateTime exif = Some s \<and> dateParse (sampleHost 0) s = Some t \<longrightarrow>
      (now (sampleHost 0) < t) = (now (sampleHost 1000) < t)"
    by (simp add: sampleHost_def)
  have "analyzeImage config (sampleHost 1000)
      (sampleWorld ((sampleStore(''doc_ela.jpg'' \<mapsto> [1])) ''doc.jpg''))
      (sampleStore(''doc_ela.jpg'' \<mapsto> [1])) ''doc.jpg'' =
    analyzeImage config (sampleHost 0) (sampleWorld (sampleStore ''doc.jpg'')) sampleStore ''doc.jpg''"
    using analysis_deterministic_up_to_clock [where w = sampleWorld and st = sampleStore
        and ?h1.0 = "sampleHost 0" and ?h2.0 = "sampleHost 1000" and cfg = config
        and p = "''doc.jpg''" and ?st1.0 = "sampleStore(''doc_ela.jpg'' \<mapsto> [1])",
        OF path host clock st] .
  then show ?thesis
    using r by (simp add: secondRun_def firstRun_def storeOf_def)
qed

text \<open>
  C8 as stated fails: the sample image carries the creation date 2030-01-01; a run before
  that instant flags the metadata and scores 0.09, a second run at that instant scores 0.
\<close>

theorem analysis_deterministic_counterexample:
  "map_option forgeryScore (resultOf (firstRun 0 ''doc.jpg'')) \<noteq>
   map_option forgeryScore (resultOf (secondRun 0 1893456000000 ''doc.jpg''))"
proof -
  obtain r1 where r1: "firstRun 0 ''doc.jpg'' = Returned r1 (sampleStore(''doc_ela.jpg'' \<mapsto> [1]))"
    using sample_first_run [of 0 "''doc.jpg''"] by (auto simp add: sample_paths)
  have w: "sampleWorld (sampleStore ''doc.jpg'') = sampleCodec\<lparr>imageMetadata := imageMetadata sampleCodec\<rparr>"
    "sampleWorld ((sampleStore(''doc_ela.jpg'' \<mapsto> [1])) ''doc.jpg'') =
      sampleCodec\<lparr>imageMetadata := imageMetadata sampleCodec\<rparr>"
    by (simp_all add: sampleWorld_def sampleStore_def)
  have "\<exists>r2 st2. secondRun 0 1893456000000 ''doc.jpg'' = Returned r2 st2 \<and>
      analyzeImage config (sampleHost 1893456000000)
        (sampleCodec\<lparr>imageMetadata := imageMetadata sampleCodec\<rparr>)
        (sampleStore(''doc_ela.jpg'' \<mapsto> [1])) ''doc.jpg'' = Returned r2 st2"
  proof -
    obtain compression where
      "analyzeCompression (sampleCodec\<lparr>imageMetadata := imageMetadata sampleCodec\<rparr>) = Some compression"
      using sample_compression by blast
    then obtain r2 where "analyzeImage config (sampleHost 1893456000000)
        (sampleCodec\<lparr>imageMetadata := imageMetadata sampleCodec\<rparr>)
        (sampleStore(''doc_ela.jpg'' \<mapsto> [1])) ''doc.jpg'' =
        Returned r2 ((sampleStore(''doc_ela.jpg'' \<mapsto> [1]))(elaOutputPath ''doc.jpg'' \<mapsto> [1]))"
      using analyzeImage_returns [where px = "[0]" and buffer = "[1]"
          and c = "sampleCodec\<lparr>imageMetadata := imageMetadata sampleCodec\<rparr>"
          and h = "sampleHost 1893456000000" and cfg = config and p = "''doc.jpg''"
          and st = "sampleStore(''doc_ela.jpg'' \<mapsto> [1])"]
      by (auto simp add: sampleCodec_def sampleHost_def)
    then show ?thesis
      using r1 w(2) by (simp add: secondRun_def storeOf_def)
  qed
  then obtain r2 st2 where r2: "secondRun 0 1893456000000 ''doc.jpg'' = Returned r2 st2"
    "analyzeImage config (sampleHost 1893456000000)
        (sampleCodec\<lparr>imageMetadata := imageMetadata sampleCodec\<rparr>)
        (sampleStore(''doc_ela.jpg'' \<mapsto> [1])) ''doc.jpg'' = Returned r2 st2"
    by blast
  have "analyzeImage config (sampleHost 0) (sampleCodec\<lparr>imageMetadata := imageMetadata sampleCodec\<rparr>)
      sampleStore ''doc.jpg'' = Returned r1 (sampleStore(''doc_ela.jpg'' \<mapsto> [1]))"
    using r1 w(1) by (simp add: firstRun_def)
  from sample_score [OF this] sample_score [OF r2(2)]
  have "forgeryScore r1 \<noteq> forgeryScore r2"
    by (simp add: sample_flags)
  then show ?thesis by (simp add: r1 r2(1) resultOf_def)
qed

text \<open>
  The path condition cannot be dropped. A path with another extension, such as
  \<^verbatim>\<open>doc.webp\<close>, is its own output path: the run saves the ELA image over the image, and
  the second run, with the same clock reading, analyses another file.
\<close>

lemma overwritten_image_changes_score:
  "map_option forgeryScore (resultOf (firstRun 0 ''doc.webp'')) \<noteq>
   map_option forgeryScore (resultOf (secondRun 0 0 ''doc.webp''))"
proof -
  obtain r1 where r1: "firstRun 0 ''doc.webp'' = Returned r1 (sampleStore(''doc.webp'' \<mapsto> [1]))"
    using sample_first_run [of 0 "''doc.webp''"] by (auto simp add: sample_paths)
  have w: "sampleWorld (sampleStore ''doc.webp'') = sampleCodec\<lparr>imageMetadata := imageMetadata sampleCodec\<rparr>"
    "sampleWorld ((sampleStore(''doc.webp'' \<mapsto> [1])) ''doc.webp'') =
      sampleCodec\<lparr>imageMetadata := Inr None\<rparr>"
    by (simp_all add: sampleWorld_def sampleStore_def elaImageCodec_def)
  obtain compression where
    "analyzeCompression (sampleCodec\<lparr>imageMetadata := Inr None\<rparr>) = Some compression"
    using sample_compression by blast
  then obtain r2 st2 where r2: "analyzeImage config (sampleHost 0)
      (sampleCodec\<lparr>imageMetadata := Inr None\<rparr>)
      (sampleStore(''doc.webp'' \<mapsto> [1])) ''doc.webp'' = Returned r2 st2"
    using analyzeImage_returns [where px = "[0]" and buffer = "[1]"
        and c = "sampleCodec\<lparr>imageMetadata := Inr None\<rparr>"
        and h = "sampleHost 0" and cfg = config and p = "''doc.webp''"
        and st = "sampleStore(''doc.webp'' \<mapsto> [1])"]
    by (auto simp add: sampleCodec_def sampleHost_def)
  then have second: "secondRun 0 0 ''doc.webp'' = Returned r2 st2"
    using r1 w(2) by (simp add: secondRun_def storeOf_def)
  have "analyzeImage config (sampleHost 0) (sampleCodec\<lparr>imageMetadata := imageMetadata sampleCodec\<rparr>)
      sampleStore ''doc.webp'' = Returned r1 (sampleStore(''doc.webp'' \<mapsto> [1]))"
    using r1 w(1) by (simp add: firstRun_def)
  from sample_score [OF this] sample_score [OF r2]
  have "forgeryScore r1 \<noteq> forgeryScore r2"
    using sample_flags(2) by (simp add: sample_flags(1) elaImageCodec_def)
  then show ?thesis by (simp add: r1 second resultOf_def)
qed

subsection \<open>The report tier\<close>

text \<open>
  C6. The tier of the report is decided by the score alone, whatever the analyzer results
  are: above 0.8 the report starts with HIGH RISK, above 0.6 and up to 0.8 with MEDIUM
  RISK, above 0.3 and up to 0.6 with LOW RISK, and up to 0.3 it is the sentence that the
  document appears authentic. The boundaries belong to the lower tier: 0.8 itself gives
  MEDIUM RISK, 0.6 itself LOW RISK, 0.3 itself the authentic report.
\<close>

theorem report_tier_by_score:
  "(lit (8/10) < s \<longrightarrow> take 9 (generateDetailedAnalysis s a) = ''HIGH RISK'') \<and>
   (lit (6/10) < s \<and> s \<le> lit (8/10) \<longrightarrow>
      take 11 (generateDetailedAnalysis s a) = ''MEDIUM RISK'') \<and>
   (lit (3/10) < s \<and> s \<le> lit (6/10) \<longrightarrow>
      take 8 (generateDetailedAnalysis s a) = ''LOW RISK'') \<and>
   (s \<le> lit (3/10) \<longrightarrow>
      generateDetailedAnalysis s a =
        ''Document appears authentic with no significant tampering indicators.'') \<and>
   take 11 (generateDetailedAnalysis (lit (8/10)) a) = ''MEDIUM RISK'' \<and>
   take 8 (generateDetailedAnalysis (lit (6/10)) a) = ''LOW RISK'' \<and>
   generateDetailedAnalysis (lit (3/10)) a =
     ''Document appears authentic with no significant tampering indicators.''"
proof -
  have l1: "lit (3/5) < lit (4/5)" by (simp add: float_eval)
  have l2: "lit (3/10) < lit (3/5)" by (simp add: float_eval)
  have l3: "\<not> lit (4/5) < lit (3/5)" "\<not> lit (4/5) < lit (3/10)"
    "\<not> lit (3/5) < lit (3/10)"
    using l1 l2 by simp_all
  show ?thesis
    using l1 l2 by (simp add: generateDetailedAnalysis_def l3)
qed

theorem report_tier_by_score_witness:
  "take 9 (generateDetailedAnalysis (lit (9/10)) sampleAnalyses) = ''HIGH RISK'' \<and>
   take 11 (generateDetailedAnalysis (lit (7/10)) sampleAnalyses) = ''MEDIUM RISK'' \<and>
   take 8 (generateDetailedAnalysis (lit (4/10)) sampleAnalyses) = ''LOW RISK'' \<and>
   generateDetailedAnalysis (lit (1/10)) sampleAnalyses =
     ''Document appears authentic with no significant tampering indicators.''"
proof -
  have h1: "lit (8/10) < lit (9/10)" by (simp add: float_eval)
  have h2: "lit (6/10) < lit (7/10) \<and> lit (7/10) \<le> lit (8/10)" by (simp add: float_eval)
  have h3: "lit (3/10) < lit (4/10) \<and> lit (4/10) \<le> lit (6/10)" by (simp add: float_eval)
  have h4: "lit (1/10) \<le> lit (3/10)" by (simp add: float_eval)
  show ?thesis
    using h1 h2 h3 h4
      report_tier_by_score [of "lit (9/10)" sampleAnalyses]
      report_tier_by_score [of "lit (7/10)" sampleAnalyses]
      report_tier_by_score [of "lit (4/10)" sampleAnalyses]
      report_tier_by_score [of "lit (1/10)" sampleAnalyses]
    by simp
qed

subsection \<open>Failures of the analyzers\<close>

lemma ela_rejection_throws:
  assumes "analyzeCompression c = Some compression"
    and "elaCalls c (elaQuality cfg) = ReencodeRejected e \<or>
         elaCalls c (elaQuality cfg) = HelperFailed e \<or>
         elaCalls c (elaQuality cfg) = HelperOutput buffer d \<and>
           (writeFile h (elaOutputPath p) = Some e \<or> d = Inl e)"
  shows "\<exists>st'. analyzeImage cfg h c st p = Thrown ''Failed to analyze image for forgery'' st'"
  using assms
  by (auto simp add: analyzeImage_def performELA_def Let_def split: option.splits)

lemma compression_failures:
  "imageMetadata c = Inl e \<Longrightarrow> analyzeCompression c = Some (degradedCompression e)"
  "imageMetadata c = Inr md \<Longrightarrow> compressionHelper c \<noteq> SpawnFailed \<Longrightarrow>
     compressionMap c = Inl e \<Longrightarrow> analyzeCompression c = Some (degradedCompression e)"
  "imageMetadata c = Inr md \<Longrightarrow> compressionHelper c = ReplyNull \<Longrightarrow>
     compressionMap c = Inr cmap \<Longrightarrow>
     analyzeCompression c = Some (degradedCompression nullPropertyMessage)"
  "imageMetadata c = Inr md \<Longrightarrow> compressionHelper c = ExitFailure e \<Longrightarrow>
     compressionMap c = Inr cmap \<Longrightarrow>
     analyzeCompression c =
       Some \<lparr>hasInconsistentCompression = False, compressionError = None,
             compressionArtifactsOf =
               Some \<lparr>inconsistentBlocks = Fin 0, artifactsError = Some e\<rparr>,
             compressionPatternsOf =
               Some (analyzeCompressionPatterns
                       \<lparr>inconsistentBlocks = Fin 0, artifactsError = Some e\<rparr> cmap)\<rparr>"
  "imageMetadata c = Inr md \<Longrightarrow> compressionHelper c = Unparsable \<Longrightarrow>
     compressionMap c = Inr cmap \<Longrightarrow>
     analyzeCompression c =
       Some \<lparr>hasInconsistentCompression = False, compressionError = None,
             compressionArtifactsOf =
               Some \<lparr>inconsistentBlocks = Fin 0, artifactsError = None\<rparr>,
             compressionPatternsOf =
               Some (analyzeCompressionPatterns
                       \<lparr>inconsistentBlocks = Fin 0, artifactsError = None\<rparr> cmap)\<rparr>"
  by (simp_all add: analyzeCompression_def detectCompressionArtifacts_def gt_def
        split: helperReply.splits)

lemma analyzeImage_results:
  assumes "elaCalls c (elaQuality cfg) = HelperOutput buffer (Inr px)"
    and "writeFile h (elaOutputPath p) = None"
    and "analyzeCompression c = Some compression"
  shows "\<exists>r. analyzeImage cfg h c st p = Returned r (st(elaOutputPath p \<mapsto> buffer)) \<and>
           compressionAnalysisOf r = compression \<and>
           metadataAnalysisOf r = analyzeMetadata h c \<and>
           noiseAnalysisOf r = analyzeNoise c \<and>
           edgeAnalysisOf r = analyzeEdges c"
  using assms by (simp add: analyzeImage_def performELA_def Let_def)

text \<open>
  C7, as amended. When the compression helper has not ended the process: a rejected
  re-encode, a pixel-difference helper that closes with a code other than 0, a rejected
  save of the ELA image or an ELA buffer that does not decode makes \<open>analyzeImage\<close> throw,
  and no analysis is returned. A rejected call of the compression, metadata, noise or edge
  analyzer, and a compression helper that replies \<^verbatim>\<open>null\<close>, give a degraded result of that
  analyzer, with its flag false and the error message. A compression helper that closes
  with a code other than 0, or whose reply does not parse, is no failure of the analyzer:
  the result counts no inconsistent blocks, has its flag false and no error message of its
  own; the helper's standard error is kept among the artifacts in the first case, nothing
  is kept in the second. When the error-level analysis succeeds, \<open>analyzeImage\<close> returns an
  analysis that holds the results of all four analyzers, degraded or not.
\<close>

theorem analyzer_failures:
  "(analyzeCompression c \<noteq> None \<and>
    (elaCalls c (elaQuality cfg) = ReencodeRejected e \<or>
     elaCalls c (elaQuality cfg) = HelperFailed e \<or>
     elaCalls c (elaQuality cfg) = HelperOutput buffer d \<and>
       (writeFile h (elaOutputPath p) = Some e \<or> d = Inl e)) \<longrightarrow>
      (\<exists>st'. analyzeImage cfg h c st p = Thrown ''Failed to analyze image for forgery'' st')) \<and>
   (imageMetadata c = Inl e \<longrightarrow>
      analyzeCompression c =
        Some \<lparr>hasInconsistentCompression = False, compressionError = Some e,
              compressionArtifactsOf = None, compressionPatternsOf = None\<rparr> \<and>
      analyzeMetadata h c = \<lparr>hasInconsistentMetadata = False, metadataError = Some e\<rparr>) \<and>
   (imageMetadata c = Inr md \<and> compressionHelper c \<noteq> SpawnFailed \<and>
    compressionMap c = Inl e \<longrightarrow>
      analyzeCompression c =
        Some \<lparr>hasInconsistentCompression = False, compressionError = Some e,
              compressionArtifactsOf = None, compressionPatternsOf = None\<rparr>) \<and>
   (imageMetadata c = Inr md \<and> compressionHelper c = ReplyNull \<and>
    compressionMap c = Inr cmap \<longrightarrow>
      analyzeCompression c =
        Some \<lparr>hasInconsistentCompression = False, compressionError = Some nullPropertyMessage,
              compressionArtifactsOf = None, compressionPatternsOf = None\<rparr>) \<and>
   (imageMetadata c = Inr md \<and> compressionHelper c = ExitFailure e \<and>
    compressionMap c = Inr cmap \<longrightarrow>
      analyzeCompression c =
        Some \<lparr>hasInconsistentCompression = False, compressionError = None,
              compressionArtifactsOf =
                Some \<lparr>inconsistentBlocks = Fin 0, artifactsError = Some e\<rparr>,
              compressionPatternsOf =
                Some (analyzeCompressionPatterns
                        \<lparr>inconsistentBlocks = Fin 0, artifactsError = Some e\<rparr> cmap)\<rparr>) \<and>
   (imageMetadata c = Inr md \<and> compressionHelper c = Unparsable \<and>
    compressionMap c = Inr cmap \<longrightarrow>
      analyzeCompression c =
        Some \<lparr>hasInconsistentCompression = False, compressionError = None,
              compressionArtifactsOf =
                Some \<lparr>inconsistentBlocks = Fin 0, artifactsError = None\<rparr>,
              compressionPatternsOf =
                Some (analyzeCompressionPatterns
                        \<lparr>inconsistentBlocks = Fin 0, artifactsError = None\<rparr> cmap)\<rparr>) \<and>
   (noiseRaw c = Inl e \<longrightarrow>
      analyzeNoise c =
        \<lparr>hasInconsistentNoise = False, noiseError = Some e, noiseMetricsOf = None\<rparr>) \<and>
   (edgeRaw c = Inl e \<longrightarrow>
      analyzeEdges c =
        \<lparr>hasInconsistentEdges = False, edgeError = Some e, edgeMetricsOf = None\<rparr>) \<and>
   (elaCalls c (elaQuality cfg) = HelperOutput buffer (Inr px) \<and>
    writeFile h (elaOutputPath p) = None \<and> analyzeCompression c = Some compression \<longrightarrow>
      (\<exists>r. analyzeImage cfg h c st p = Returned r (st(elaOutputPath p \<mapsto> buffer)) \<and>
           compressionAnalysisOf r = compression \<and>
           metadataAnalysisOf r = analyzeMetadata h c \<and>
           noiseAnalysisOf r = analyzeNoise c \<and>
           edgeAnalysisOf r = analyzeEdges c))"
proof (intro conjI impI)
  assume "analyzeCompression c \<noteq> None \<and>
    (elaCalls c (elaQuality cfg) = ReencodeRejected e \<or>
     elaCalls c (elaQuality cfg) = HelperFailed e \<or>
     elaCalls c (elaQuality cfg) = HelperOutput buffer d \<and>
       (writeFile h (elaOutputPath p) = Some e \<or> d = Inl e))"
  then show "\<exists>st'. analyzeImage cfg h c st p = Thrown ''Failed to analyze image for forgery'' st'"
    using ela_rejection_throws [of c _ cfg e buffer d h p st] by blast
next
  assume "elaCalls c (elaQuality cfg) = HelperOutput buffer (Inr px) \<and>
    writeFile h (elaOutputPath p) = None \<and> analyzeCompression c = Some compression"
  then show "\<exists>r. analyzeImage cfg h c st p = Returned r (st(elaOutputPath p \<mapsto> buffer)) \<and>
           compressionAnalysisOf r = compression \<and>
           metadataAnalysisOf r = analyzeMetadata h c \<and>
           noiseAnalysisOf r = analyzeNoise c \<and>
           edgeAnalysisOf r = analyzeEdges c"
    using analyzeImage_results [of c cfg buffer px h p compression st] by blast
qed (simp_all add: compression_failures degradedCompression_def analyzeMetadata_def
       analyzeNoise_def analyzeEdges_def)

theorem analyzer_failures_witness:
  "(\<exists>st'. analyzeImage config (sampleHost 0) elaFailingCodec sampleStore ''doc.jpg'' =
           Thrown ''Failed to analyze image for forgery'' st') \<and>
   (\<exists>st'. analyzeImage config (sampleHost 0) helperExitCodec sampleStore ''doc.jpg'' =
           Thrown ''Failed to analyze image for forgery'' st') \<and>
   (\<exists>r. analyzeImage config (sampleHost 0) degradedCodec sampleStore ''doc.jpg'' =
          Returned r (sampleStore(''doc_ela.jpg'' \<mapsto> [1])) \<and>
        compressionAnalysisOf r =
          \<lparr>hasInconsistentCompression = False,
           compressionError = Some ''unsupported image format'',
           compressionArtifactsOf = None, compressionPatternsOf = None\<rparr> \<and>
        metadataAnalysisOf r =
          \<lparr>hasInconsistentMetadata = False,
           metadataError = Some ''unsupported image format''\<rparr> \<and>
        noiseAnalysisOf r =
          \<lparr>hasInconsistentNoise = False, noiseError = Some ''greyscale failed'',
           noiseMetricsOf = None\<rparr> \<and>
        edgeAnalysisOf r =
          \<lparr>hasInconsistentEdges = False, edgeError = Some ''convolve failed'',
           edgeMetricsOf = None\<rparr>) \<and>
   analyzeCompression (sampleCodec\<lparr>compressionMap := Inl ''resize failed''\<rparr>) =
     Some \<lparr>hasInconsistentCompression = False, compressionError = Some ''resize failed'',
           compressionArtifactsOf = None, compressionPatternsOf = None\<rparr> \<and>
   analyzeCompression (sampleCodec\<lparr>compressionHelper := ReplyNull\<rparr>) =
     Some \<lparr>hasInconsistentCompression = False, compressionError = Some nullPropertyMessage,
           compressionArtifactsOf = None, compressionPatternsOf = None\<rparr> \<and>
   analyzeCompression (sampleCodec\<lparr>compressionHelper := ExitFailure ''No module named cv2''\<rparr>) =
     Some \<lparr>hasInconsistentCompression = False, compressionError = None,
           compressionArtifactsOf =
             Some \<lparr>inconsistentBlocks = Fin 0, artifactsError = Some ''No module named cv2''\<rparr>,
           compressionPatternsOf =
             Some (analyzeCompressionPatterns
                     \<lparr>inconsistentBlocks = Fin 0,
                      artifactsError = Some ''No module named cv2''\<rparr> [])\<rparr> \<and>
   analyzeCompression unparsableCodec =
     Some \<lparr>hasInconsistentCompression = False, compressionError = None,
           compressionArtifactsOf = Some \<lparr>inconsistentBlocks = Fin 0, artifactsError = None\<rparr>,
           compressionPatternsOf =
             Some (analyzeCompressionPatterns
                     \<lparr>inconsistentBlocks = Fin 0, artifactsError = None\<rparr> [])\<rparr>"
proof -
  have comp: "analyzeCompression elaFailingCodec \<noteq> None" "analyzeCompression helperExitCodec \<noteq> None"
    by (simp_all add: elaFailingCodec_def helperExitCodec_def sampleCodec_def
        analyzeCompression_def detectCompressionArtifacts_def)
  have a: "elaCalls elaFailingCodec (elaQuality config) = ReencodeRejected ''Input file is missing''"
    by (simp add: elaFailingCodec_def)
  have a': "elaCalls helperExitCodec (elaQuality config) = HelperFailed ''Traceback''"
    by (simp add: helperExitCodec_def)
  have b: "elaCalls degradedCodec (elaQuality config) = HelperOutput [1] (Inr [0])"
    "writeFile (sampleHost 0) (elaOutputPath ''doc.jpg'') = None"
    by (simp_all add: degradedCodec_def sampleCodec_def sampleHost_def)
  have c: "imageMetadata degradedCodec = Inl ''unsupported image format''"
    by (simp add: degradedCodec_def)
  have d: "noiseRaw degradedCodec = Inl ''greyscale failed''"
    by (simp add: degradedCodec_def)
  have e: "edgeRaw degradedCodec = Inl ''convolve failed''"
    by (simp add: degradedCodec_def)
  have f: "imageMetadata (sampleCodec\<lparr>compressionMap := Inl ''resize failed''\<rparr>) =
      Inr (Some \<lparr>DateTime = Some ''2030-01-01T00:00:00Z'', Software = None\<rparr>)"
    "compressionHelper (sampleCodec\<lparr>compressionMap := Inl ''resize failed''\<rparr>) \<noteq> SpawnFailed"
    "compressionMap (sampleCodec\<lparr>compressionMap := Inl ''resize failed''\<rparr>) = Inl ''resize failed''"
    by (simp_all add: sampleCodec_def)
  have g: "imageMetadata (sampleCodec\<lparr>compressionHelper := k\<rparr>) =
      Inr (Some \<lparr>DateTime = Some ''2030-01-01T00:00:00Z'', Software = None\<rparr>)"
    "compressionHelper (sampleCodec\<lparr>compressionHelper := k\<rparr>) = k"
    "compressionMap (sampleCodec\<lparr>compressionHelper := k\<rparr>) = Inr []" for k
    by (simp_all add: sampleCodec_def)
  have 1: "\<exists>st'. analyzeImage config (sampleHost 0) elaFailingCodec sampleStore ''doc.jpg'' =
      Thrown ''Failed to analyze image for forgery'' st'"
    by (rule analyzer_failures [where c = elaFailingCodec and cfg = config
          and e = "''Input file is missing''" and buffer = "[]" and d = "Inl []",
          THEN conjunct1, THEN mp])
      (simp add: comp a)
  have 2: "\<exists>st'. analyzeImage config (sampleHost 0) helperExitCodec sampleStore ''doc.jpg'' =
      Thrown ''Failed to analyze image for forgery'' st'"
    by (rule analyzer_failures [where c = helperExitCodec and cfg = config
          and e = "''Traceback''" and buffer = "[]" and d = "Inl []",
          THEN conjunct1, THEN mp])
      (simp add: comp a')
  have 3: "analyzeCompression degradedCodec =
        Some \<lparr>hasInconsistentCompression = False,
         compressionError = Some ''unsupported image format'',
         compressionArtifactsOf = None, compressionPatternsOf = None\<rparr> \<and>
      analyzeMetadata (sampleHost 0) degradedCodec =
        \<lparr>hasInconsistentMetadata = False, metadataError = Some ''unsupported image format''\<rparr>"
    by (rule analyzer_failures [where c = degradedCodec and e = "''unsupported image format''",
          THEN conjunct2, THEN conjunct1, THEN mp])
      (rule c)
  have 4: "analyzeNoise degradedCodec =
        \<lparr>hasInconsistentNoise = False, noiseError = Some ''greyscale failed'',
         noiseMetricsOf = None\<rparr>"
    by (rule analyzer_failures [where c = degradedCodec and e = "''greyscale failed''",
          THEN conjunct2, THEN conjunct2, THEN conjunct2, THEN conjunct2, THEN conjunct2,
          THEN conjunct2, THEN conjunct1, THEN mp])
      (rule d)
  have 5: "analyzeEdges degradedCodec =
        \<lparr>hasInconsistentEdges = False, edgeError = Some ''convolve failed'',
         edgeMetricsOf = None\<rparr>"
    by (rule analyzer_failures [where c = degradedCodec and e = "''convolve failed''",
          THEN conjunct2, THEN conjunct2, THEN conjunct2, THEN conjunct2, THEN conjunct2,
          THEN conjunct2, THEN conjunct2, THEN conjunct1, THEN mp])
      (rule e)
  have "\<exists>r. analyzeImage config (sampleHost 0) degradedCodec sampleStore ''doc.jpg'' =
         Returned r (sampleStore(elaOutputPath ''doc.jpg'' \<mapsto> [1])) \<and>
      compressionAnalysisOf r =
         \<lparr>hasInconsistentCompression = False,
          compressionError = Some ''unsupported image format'',
          compressionArtifactsOf = None, compressionPatternsOf = None\<rparr> \<and>
      metadataAnalysisOf r = analyzeMetadata (sampleHost 0) degradedCodec \<and>
      noiseAnalysisOf r = analyzeNoise degradedCodec \<and>
      edgeAnalysisOf r = analyzeEdges degradedCodec"
    by (rule analyzer_failures [where c = degradedCodec and cfg = config and px = "[0]",
          THEN conjunct2, THEN conjunct2, THEN conjunct2, THEN conjunct2, THEN conjunct2,
          THEN conjunct2, THEN conjunct2, THEN conjunct2, THEN mp])
      (simp only: b 3 simp_thms)
  then have r: "\<exists>r. analyzeImage config (sampleHost 0) degradedCodec sampleStore ''doc.jpg'' =
          Returned r (sampleStore(''doc_ela.jpg'' \<mapsto> [1])) \<and>
        compressionAnalysisOf r =
          \<lparr>hasInconsistentCompression = False,
           compressionError = Some ''unsupported image format'',
           compressionArtifactsOf = None, compressionPatternsOf = None\<rparr> \<and>
        metadataAnalysisOf r =
          \<lparr>hasInconsistentMetadata = False,
           metadataError = Some ''unsupported image format''\<rparr> \<and>
        noiseAnalysisOf r =
          \<lparr>hasInconsistentNoise = False, noiseError = Some ''greyscale failed'',
           noiseMetricsOf = None\<rparr> \<and>
        edgeAnalysisOf r =
          \<lparr>hasInconsistentEdges = False, edgeError = Some ''convolve failed'',
           edgeMetricsOf = None\<rparr>"
    by (simp only: 3 4 5 sample_paths)
  have 6: "analyzeCompression (sampleCodec\<lparr>compressionMap := Inl ''resize failed''\<rparr>) =
     Some \<lparr>hasInconsistentCompression = False, compressionError = Some ''resize failed'',
           compressionArtifactsOf = None, compressionPatternsOf = None\<rparr>"
    by (rule analyzer_failures [where e = "''resize failed''",
          THEN conjunct2, THEN conjunct2, THEN conjunct1, THEN mp])
      (simp only: f simp_thms)
  have 7: "analyzeCompression (sampleCodec\<lparr>compressionHelper := ReplyNull\<rparr>) =
     Some \<lparr>hasInconsistentCompression = False, compressionError = Some nullPropertyMessage,
           compressionArtifactsOf = None, compressionPatternsOf = None\<rparr>"
    by (rule analyzer_failures [THEN conjunct2, THEN conjunct2, THEN conjunct2,
          THEN conjunct1, THEN mp])
      (simp only: g simp_thms)
  have 8: "analyzeCompression (sampleCodec\<lparr>compressionHelper := ExitFailure ''No module named cv2''\<rparr>) =
     Some \<lparr>hasInconsistentCompression = False, compressionError = None,
           compressionArtifactsOf =
             Some \<lparr>inconsistentBlocks = Fin 0, artifactsError = Some ''No module named cv2''\<rparr>,
           compressionPatternsOf =
             Some (analyzeCompressionPatterns
                     \<lparr>inconsistentBlocks = Fin 0,
                      artifactsError = Some ''No module named cv2''\<rparr> [])\<rparr>"
    by (rule analyzer_failures [where e = "''No module named cv2''",
          THEN conjunct2, THEN conjunct2, THEN conjunct2, THEN conjunct2,
          THEN conjunct1, THEN mp])
      (simp only: g simp_thms)
  have 9: "analyzeCompression (sampleCodec\<lparr>compressionHelper := Unparsable\<rparr>) =
     Some \<lparr>hasInconsistentCompression = False, compressionError = None,
           compressionArtifactsOf = Some \<lparr>inconsistentBlocks = Fin 0, artifactsError = None\<rparr>,
           compressionPatternsOf =
             Some (analyzeCompressionPatterns
                     \<lparr>inconsistentBlocks = Fin 0, artifactsError = None\<rparr> [])\<rparr>"
    by (rule analyzer_failures [THEN conjunct2, THEN conjunct2, THEN conjunct2,
          THEN conjunct2, THEN conjunct2, THEN conjunct1, THEN mp])
      (simp only: g simp_thms)
  show ?thesis
    unfolding unparsableCodec_def
    by (intro conjI 1 2 r 6 7 8 9)
qed

text \<open>
  C7 as stated fails on two counts. A reply of the compression helper that does not parse
  is swallowed: the compression result is not degraded and records no message. And the
  pixel-difference helper can fail without a throw: when it emits \<^verbatim>\<open>'error'\<close> the process
  ends.
\<close>

theorem analyzer_failures_counterexample:
  "analyzeCompression unparsableCodec =
     Some \<lparr>hasInconsistentCompression = False, compressionError = None,
           compressionArtifactsOf = Some \<lparr>inconsistentBlocks = Fin 0, artifactsError = None\<rparr>,
           compressionPatternsOf =
             Some (analyzeCompressionPatterns
                     \<lparr>inconsistentBlocks = Fin 0, artifactsError = None\<rparr> [])\<rparr> \<and>
   analyzeImage config (sampleHost 0) helperErrorCodec sampleStore ''doc.jpg'' = Terminated"
  by (simp add: analyzeCompression_def detectCompressionArtifacts_def unparsableCodec_def
        helperErrorCodec_def sampleCodec_def analyzeImage_def performELA_def gt_def)

subsection \<open>The compression flag\<close>

lemma fold_zero: "foldl (\<lambda>s q. fadd s q) 0 (replicate n 0) = 0"
  by (induction n) (simp_all add: float_eval)

lemma fold_zero_sq: "foldl (\<lambda>s q. fadd s (fpow2 (fsub q 0))) 0 (replicate n 0) = 0"
  by (induction n) (simp_all add: float_eval)

lemma blackMap_length: "length blackMap = 169"
  by (simp add: blackMap_def loopStarts_def length_concat comp_def sum_list_triv)

lemma blackMap_quality: "map quality blackMap = replicate 169 0"
proof -
  have "\<forall>b\<in>set blackMap. quality b = 0"
    by (auto simp add: blackMap_def)
  then have "map quality blackMap = replicate (length blackMap) 0"
    by (simp add: map_replicate_const [symmetric] cong: map_cong)
  then show ?thesis by (simp add: blackMap_length)
qed

lemma blackMap_variance:
  "calculateQualityVariance blackMap = \<lparr>q_mean = Fin 0, q_variance = Fin 0, stdDev = Fin 0\<rparr>"
proof -
  have ne: "replicate 169 (0::real) \<noteq> []" by simp
  have m: "fdiv 0 169 = 0" by (simp add: float_eval)
  have s: "fsqrt 0 = 0" by (simp add: fsqrt_def float_eval)
  show ?thesis
    unfolding calculateQualityVariance_def blackMap_quality Let_def
    by (simp only: ne if_False fold_zero fold_zero_sq length_replicate m s of_nat_numeral)
qed

lemma blackMap_patterns:
  "analyzeCompressionPatterns a blackMap =
     \<lparr>patterns_qualityVariance = \<lparr>q_mean = Fin 0, q_variance = Fin 0, stdDev = Fin 0\<rparr>,
      suspiciousBlockCount = 0, suspiciousBlocks = [], overallSuspicion = ''low''\<rparr>"
proof -
  have "\<forall>b\<in>set blackMap. quality b = 0"
    by (auto simp add: blackMap_def)
  then have "filter (isSuspiciousBlock \<lparr>q_mean = Fin 0, q_variance = Fin 0, stdDev = Fin 0\<rparr>) blackMap = []"
    by (simp add: isSuspiciousBlock_def filter_empty_conv float_eval)
  then show ?thesis
    by (simp add: analyzeCompressionPatterns_def blackMap_variance Let_def)
qed

lemma compression_flag_iff:
  assumes "analyzeCompression c = Some r"
  shows "hasInconsistentCompression r \<longleftrightarrow>
     (\<exists>md n cmap. imageMetadata c = Inr md \<and> compressionHelper c = Reply n \<and>
        compressionMap c = Inr cmap \<and> gt n 5)"
  using assms
  by (auto simp add: analyzeCompression_def detectCompressionArtifacts_def degradedCompression_def
        gt_def split: sum.splits helperReply.splits)

lemma sixBlocks_compression:
  "analyzeCompression sixBlocksCodec =
     Some \<lparr>hasInconsistentCompression = True, compressionError = None,
           compressionArtifactsOf = Some \<lparr>inconsistentBlocks = Fin 6, artifactsError = None\<rparr>,
           compressionPatternsOf =
             Some \<lparr>patterns_qualityVariance =
                     \<lparr>q_mean = Fin 0, q_variance = Fin 0, stdDev = Fin 0\<rparr>,
                   suspiciousBlockCount = 0, suspiciousBlocks = [],
                   overallSuspicion = ''low''\<rparr>\<rparr>"
  by (simp add: analyzeCompression_def detectCompressionArtifacts_def sixBlocksCodec_def
        sampleCodec_def blackMap_patterns gt_def)


text \<open>
  C3, as amended. The flag of the compression analyzer is true exactly when the count of
  inconsistent blocks that the helper reports is greater than 5, the metadata and the
  compression map having been read. The number of suspicious blocks of the compression map,
  the blocks whose quality differs from the mean over the blocks by more than twice the
  standard deviation, does not enter the flag: it sets the overall suspicion, high above 5,
  medium above 2, low otherwise.
\<close>

theorem compression_flag_from_helper:
  "(analyzeCompression c = Some r \<longrightarrow>
      (hasInconsistentCompression r \<longleftrightarrow>
         (\<exists>md n cmap. imageMetadata c = Inr md \<and> compressionHelper c = Reply n \<and>
            compressionMap c = Inr cmap \<and> gt n 5))) \<and>
   suspiciousBlockCount (analyzeCompressionPatterns a cmap) =
     length (filter (isSuspiciousBlock (calculateQualityVariance cmap)) cmap) \<and>
   overallSuspicion (analyzeCompressionPatterns a cmap) =
     (if 5 < suspiciousBlockCount (analyzeCompressionPatterns a cmap) then ''high''
      else if 2 < suspiciousBlockCount (analyzeCompressionPatterns a cmap) then ''medium''
      else ''low'')"
proof (intro conjI impI)
  assume "analyzeCompression c = Some r"
  then show "hasInconsistentCompression r \<longleftrightarrow>
     (\<exists>md n cmap. imageMetadata c = Inr md \<and> compressionHelper c = Reply n \<and>
        compressionMap c = Inr cmap \<and> gt n 5)"
    by (rule compression_flag_iff)
qed (simp_all add: analyzeCompressionPatterns_def Let_def)

theorem compression_flag_from_helper_witness:
  "(\<exists>md n cmap. imageMetadata sixBlocksCodec = Inr md \<and>
      compressionHelper sixBlocksCodec = Reply n \<and>
      compressionMap sixBlocksCodec = Inr cmap \<and> gt n 5) \<and>
   suspiciousBlockCount
     (analyzeCompressionPatterns \<lparr>inconsistentBlocks = Fin 6, artifactsError = None\<rparr> blackMap) = 0 \<and>
   overallSuspicion
     (analyzeCompressionPatterns \<lparr>inconsistentBlocks = Fin 6, artifactsError = None\<rparr> blackMap) =
     ''low''"
proof -
  note t = compression_flag_from_helper [where c = sixBlocksCodec
      and a = "\<lparr>inconsistentBlocks = Fin 6, artifactsError = None\<rparr>" and cmap = blackMap]
  from t [THEN conjunct1, THEN mp, OF sixBlocks_compression]
  have 1: "\<exists>md n cmap. imageMetadata sixBlocksCodec = Inr md \<and>
      compressionHelper sixBlocksCodec = Reply n \<and>
      compressionMap sixBlocksCodec = Inr cmap \<and> gt n 5"
    by simp
  have 2: "suspiciousBlockCount
     (analyzeCompressionPatterns \<lparr>inconsistentBlocks = Fin 6, artifactsError = None\<rparr> blackMap) = 0"
    by (simp add: blackMap_patterns)
  from t [THEN conjunct2, THEN conjunct2]
  have 3: "overallSuspicion
     (analyzeCompressionPatterns \<lparr>inconsistentBlocks = Fin 6, artifactsError = None\<rparr> blackMap) =
     ''low''"
    by (simp only: 2) simp
  from 1 2 3 show ?thesis by (intro conjI)
qed


text \<open>
  C3 as stated fails: with six inconsistent blocks reported by the helper for a black
  image, the flag is true although no block of the map is suspicious and the overall
  suspicion is low.
\<close>

theorem compression_flag_from_helper_counterexample:
  "analyzeCompression sixBlocksCodec =
     Some \<lparr>hasInconsistentCompression = True, compressionError = None,
           compressionArtifactsOf = Some \<lparr>inconsistentBlocks = Fin 6, artifactsError = None\<rparr>,
           compressionPatternsOf =
             Some \<lparr>patterns_qualityVariance =
                     \<lparr>q_mean = Fin 0, q_variance = Fin 0, stdDev = Fin 0\<rparr>,
                   suspiciousBlockCount = 0, suspiciousBlocks = [],
                   overallSuspicion = ''low''\<rparr>\<rparr>"
  by (simp add: analyzeCompression_def detectCompressionArtifacts_def sixBlocksCodec_def
        sampleCodec_def blackMap_patterns gt_def)


subsection \<open>Merging two blocks\<close>

lemma rnd_half: "\<bar>m\<bar> < 2 ^ 53 \<Longrightarrow> rnd (of_int m / 2) = of_int m / 2"
  using rnd_exact [of m "- 1"] by (simp add: power_int_minus)

lemma rnd_quarter: "\<bar>m\<bar> < 2 ^ 53 \<Longrightarrow> rnd (of_int m / 4) = of_int m / 4"
  using rnd_exact [of m "- 2"] by (simp add: power_int_minus)

lemma center_exact:
  assumes "\<bar>x\<bar> \<le> 2 ^ 50" and "\<bar>w\<bar> \<le> 2 ^ 50"
  shows "fadd (of_int x) (fdiv (of_int w) 2) = of_int (2 * x + w) / 2"
proof -
  have "fdiv (of_int w) 2 = of_int w / 2"
    unfolding fdiv_def using assms(2) by (intro rnd_half) simp
  moreover have "rnd (of_int (2 * x + w) / 2) = of_int (2 * x + w) / 2"
    using assms by (intro rnd_half) simp
  moreover have "of_int x + of_int w / 2 = (of_int (2 * x + w) / 2 :: real)"
    by simp
  ultimately show ?thesis by (simp only: fadd_def)
qed

lemma center_diff_exact:
  assumes "\<bar>p\<bar> \<le> 3 * 2 ^ 50" and "\<bar>q\<bar> \<le> 3 * 2 ^ 50"
  shows "fsub (of_int q / 2) (of_int p / 2) = of_int (q - p) / 2"
proof -
  have d: "\<bar>q - p\<bar> < 2 ^ 53" using assms by simp
  have "fsub (of_int q / 2) (of_int p / 2) = rnd (of_int (q - p) / 2)"
    by (simp add: fsub_def diff_divide_distrib)
  also have "\<dots> = of_int (q - p) / 2"
    using d by (rule rnd_half)
  finally show ?thesis .
qed

lemma square_bound:
  fixes d :: int
  assumes "\<bar>d\<bar> < 2 ^ 26"
  shows "d * d < 2 ^ 52"
proof -
  have "\<bar>d\<bar> * \<bar>d\<bar> \<le> (2 ^ 26 - 1) * (2 ^ 26 - 1)"
    using assms by (intro mult_mono) simp_all
  then show ?thesis by (simp add: abs_mult_self_eq)
qed

lemma square_exact:
  assumes "\<bar>d\<bar> < 2 ^ 26"
  shows "fpow2 (of_int d / 2) = of_int (d * d) / 4"
proof -
  have "d * d < 2 ^ 52" using assms by (rule square_bound)
  moreover have "0 \<le> d * d" by simp
  ultimately have "\<bar>d * d\<bar> < 2 ^ 53" by simp
  then have "rnd (of_int (d * d) / 4) = of_int (d * d) / 4"
    by (rule rnd_quarter)
  moreover have "of_int d / 2 * (of_int d / 2) = (of_int (d * d) / 4 :: real)"
    by simp
  ultimately show ?thesis by (simp only: fpow2_def)
qed

lemma fsqrt_lt_50:
  assumes "0 \<le> n"
  shows "fsqrt (of_int n / 4) < 50 \<longleftrightarrow> n < 10000"
proof
  assume "fsqrt (of_int n / 4) < 50"
  show "n < 10000"
  proof (rule ccontr)
    assume "\<not> n < 10000"
    then have "(10000::real) \<le> of_int n" by simp
    then have "50\<^sup>2 \<le> (of_int n / 4 :: real)" by simp
    then have "50 \<le> sqrt (of_int n / 4)" by (rule real_le_rsqrt)
    then have "rnd 50 \<le> fsqrt (of_int n / 4)" unfolding fsqrt_def by (rule rnd_mono)
    moreover have "rnd 50 = 50" by (simp add: float_eval)
    ultimately show False using \<open>fsqrt (of_int n / 4) < 50\<close> by simp
  qed
next
  assume "n < 10000"
  then have "(of_int n :: real) \<le> 9999" by simp
  then have "(of_int n / 4 :: real) \<le> (49998 / 1000)\<^sup>2" by (simp add: power2_eq_square)
  then have "sqrt (of_int n / 4) \<le> 49998 / 1000" by (intro real_le_lsqrt) simp_all
  then have "fsqrt (of_int n / 4) \<le> rnd (49998 / 1000)" unfolding fsqrt_def by (rule rnd_mono)
  moreover have "rnd (49998 / 1000) < 50" by (simp add: float_eval)
  ultimately show "fsqrt (of_int n / 4) < 50" by simp
qed

text \<open>Centers close in both coordinates: every operation is exact up to the square root.\<close>

lemma near_small:
  assumes "\<bar>dx\<bar> < 2 ^ 26" and "\<bar>dy\<bar> < 2 ^ 26"
  shows "fsqrt (fadd (fpow2 (of_int dx / 2)) (fpow2 (of_int dy / 2))) < 50 \<longleftrightarrow>
     dx * dx + dy * dy < 10000"
proof -
  have "dx * dx < 2 ^ 52" "dy * dy < 2 ^ 52"
    using assms by (simp_all only: square_bound)
  moreover have nn: "0 \<le> dx * dx + dy * dy" by simp
  ultimately have "\<bar>dx * dx + dy * dy\<bar> < 2 ^ 53" by simp
  then have "rnd (of_int (dx * dx + dy * dy) / 4) = of_int (dx * dx + dy * dy) / 4"
    by (rule rnd_quarter)
  moreover have "of_int (dx * dx) / 4 + of_int (dy * dy) / 4 =
      (of_int (dx * dx + dy * dy) / 4 :: real)"
    by simp
  ultimately have sum: "fadd (of_int (dx * dx) / 4) (of_int (dy * dy) / 4) =
      of_int (dx * dx + dy * dy) / 4"
    by (simp only: fadd_def)
  have "fsqrt (fadd (fpow2 (of_int dx / 2)) (fpow2 (of_int dy / 2))) < 50 \<longleftrightarrow>
      fsqrt (of_int (dx * dx + dy * dy) / 4) < 50"
    by (simp only: square_exact [OF assms(1)] square_exact [OF assms(2)] sum)
  also have "\<dots> \<longleftrightarrow> dx * dx + dy * dy < 10000"
    using nn by (rule fsqrt_lt_50)
  finally show ?thesis .
qed

text \<open>Centers far apart in one coordinate: rounding is monotone, the distance stays large.\<close>

lemma fpow2_large:
  assumes "2 ^ 26 \<le> \<bar>d\<bar>"
  shows "2 ^ 50 \<le> fpow2 (of_int d / 2)" and "10000 \<le> d * d"
proof -
  have "(2 ^ 26) * (2 ^ 26) \<le> \<bar>d\<bar> * \<bar>d\<bar>"
    using assms by (intro mult_mono) simp_all
  then have sq: "2 ^ 52 \<le> d * d" by (simp add: abs_mult_self_eq)
  then show "10000 \<le> d * d" by simp
  from sq have "(2 ^ 52 :: real) \<le> of_int (d * d)"
    by (metis of_int_le_iff of_int_numeral of_int_power)
  then have "(2 ^ 50 :: real) \<le> of_int d / 2 * (of_int d / 2)" by simp
  then have "rnd (2 ^ 50) \<le> fpow2 (of_int d / 2)"
    unfolding fpow2_def by (rule rnd_mono)
  moreover have "rnd (2 ^ 50) = 2 ^ 50"
    using rnd_exact [of 1 50] by simp
  ultimately show "2 ^ 50 \<le> fpow2 (of_int d / 2)" by simp
qed

lemma fpow2_nonneg: "0 \<le> fpow2 x"
  unfolding fpow2_def by (rule rnd_nonneg) simp

lemma near_large:
  assumes "2 ^ 26 \<le> \<bar>dx\<bar> \<or> 2 ^ 26 \<le> \<bar>dy\<bar>"
  shows "\<not> fsqrt (fadd (fpow2 (of_int dx / 2)) (fpow2 (of_int dy / 2))) < 50"
    and "\<not> dx * dx + dy * dy < 10000"
proof -
  have s: "2 ^ 50 \<le> fpow2 (of_int dx / 2) + fpow2 (of_int dy / 2)"
    using assms fpow2_large(1) [of dx] fpow2_large(1) [of dy]
      fpow2_nonneg [of "of_int dx / 2"] fpow2_nonneg [of "of_int dy / 2"]
    by auto
  have "rnd (2 ^ 50) \<le> fadd (fpow2 (of_int dx / 2)) (fpow2 (of_int dy / 2))"
    unfolding fadd_def using s by (rule rnd_mono)
  moreover have "rnd (2 ^ 50) = 2 ^ 50"
    using rnd_exact [of 1 50] by simp
  ultimately have "(2 ^ 25)\<^sup>2 \<le> fadd (fpow2 (of_int dx / 2)) (fpow2 (of_int dy / 2))"
    by simp
  then have "2 ^ 25 \<le> sqrt (fadd (fpow2 (of_int dx / 2)) (fpow2 (of_int dy / 2)))"
    by (rule real_le_rsqrt)
  then have "rnd (2 ^ 25) \<le> fsqrt (fadd (fpow2 (of_int dx / 2)) (fpow2 (of_int dy / 2)))"
    unfolding fsqrt_def by (rule rnd_mono)
  moreover have "rnd (2 ^ 25) = 2 ^ 25"
    using rnd_exact [of 1 25] by simp
  ultimately show "\<not> fsqrt (fadd (fpow2 (of_int dx / 2)) (fpow2 (of_int dy / 2))) < 50"
    by simp
  have nx: "0 \<le> dx * dx" and ny: "0 \<le> dy * dy" by simp_all
  show "\<not> dx * dx + dy * dy < 10000"
  proof (cases "2 ^ 26 \<le> \<bar>dx\<bar>")
    case True
    from fpow2_large(2) [OF True] ny show ?thesis by linarith
  next
    case False
    with assms have "2 ^ 26 \<le> \<bar>dy\<bar>" by simp
    from fpow2_large(2) [OF this] nx show ?thesis by linarith
  qed
qed

lemma areAreasNearby_iff:
  assumes "pixelBox a" and "pixelBox b"
  shows "areAreasNearby a b 50 \<longleftrightarrow>
     (2 * area_x b + area_width b - (2 * area_x a + area_width a))\<^sup>2 +
     (2 * area_y b + area_height b - (2 * area_y a + area_height a))\<^sup>2 < 10000"
proof -
  let ?pa = "2 * area_x a + area_width a" and ?pb = "2 * area_x b + area_width b"
  let ?qa = "2 * area_y a + area_height a" and ?qb = "2 * area_y b + area_height b"
  let ?dx = "?pb - ?pa" and ?dy = "?qb - ?qa"
  have b: "\<bar>area_x a\<bar> \<le> 2 ^ 50" "\<bar>area_width a\<bar> \<le> 2 ^ 50" "\<bar>area_y a\<bar> \<le> 2 ^ 50"
      "\<bar>area_height a\<bar> \<le> 2 ^ 50" "\<bar>area_x b\<bar> \<le> 2 ^ 50" "\<bar>area_width b\<bar> \<le> 2 ^ 50"
      "\<bar>area_y b\<bar> \<le> 2 ^ 50" "\<bar>area_height b\<bar> \<le> 2 ^ 50"
    using assms by (simp_all add: pixelBox_def)
  have p: "\<bar>?pa\<bar> \<le> 3 * 2 ^ 50" "\<bar>?pb\<bar> \<le> 3 * 2 ^ 50" "\<bar>?qa\<bar> \<le> 3 * 2 ^ 50" "\<bar>?qb\<bar> \<le> 3 * 2 ^ 50"
    using assms by (simp_all add: pixelBox_def)
  have cx: "fadd (of_int (area_x a)) (fdiv (of_int (area_width a)) 2) = of_int ?pa / 2"
      "fadd (of_int (area_x b)) (fdiv (of_int (area_width b)) 2) = of_int ?pb / 2"
      "fadd (of_int (area_y a)) (fdiv (of_int (area_height a)) 2) = of_int ?qa / 2"
      "fadd (of_int (area_y b)) (fdiv (of_int (area_height b)) 2) = of_int ?qb / 2"
    using b by (simp_all only: center_exact)
  have sx: "fsub (of_int ?pb / 2) (of_int ?pa / 2) = of_int ?dx / 2"
    using p(1,2) by (rule center_diff_exact)
  have sy: "fsub (of_int ?qb / 2) (of_int ?qa / 2) = of_int ?dy / 2"
    using p(3,4) by (rule center_diff_exact)
  have near: "areAreasNearby a b 50 \<longleftrightarrow>
      fsqrt (fadd (fpow2 (of_int ?dx / 2)) (fpow2 (of_int ?dy / 2))) < 50"
    by (simp only: areAreasNearby_def Let_def cx sx sy)
  show ?thesis
  proof (cases "\<bar>?dx\<bar> < 2 ^ 26 \<and> \<bar>?dy\<bar> < 2 ^ 26")
    case True
    then have "fsqrt (fadd (fpow2 (of_int ?dx / 2)) (fpow2 (of_int ?dy / 2))) < 50 \<longleftrightarrow>
        ?dx * ?dx + ?dy * ?dy < 10000"
      by (intro near_small) simp_all
    with near show ?thesis by (simp only: power2_eq_square)
  next
    case False
    then have large: "2 ^ 26 \<le> \<bar>?dx\<bar> \<or> 2 ^ 26 \<le> \<bar>?dy\<bar>" by linarith
    from near_large [OF large] near show ?thesis by (simp only: power2_eq_square)
  qed
qed

lemma quarter_less: "(of_int n / 4 :: real) < 2500 \<longleftrightarrow> n < 10000"
  by auto

lemma quarter_greater: "2500 < (of_int n / 4 :: real) \<longleftrightarrow> 10000 < n"
  by auto

lemma centerDistance_eq:
  "centerDistance a b =
     sqrt (of_int ((2 * area_x b + area_width b - (2 * area_x a + area_width a))\<^sup>2 +
                   (2 * area_y b + area_height b - (2 * area_y a + area_height a))\<^sup>2) / 4)"
  by (simp add: centerDistance_def power2_eq_square field_simps)

lemma centerDistance_less_iff:
  "centerDistance a b < 50 \<longleftrightarrow>
     (2 * area_x b + area_width b - (2 * area_x a + area_width a))\<^sup>2 +
     (2 * area_y b + area_height b - (2 * area_y a + area_height a))\<^sup>2 < 10000"
proof -
  let ?n = "(2 * area_x b + area_width b - (2 * area_x a + area_width a))\<^sup>2 +
     (2 * area_y b + area_height b - (2 * area_y a + area_height a))\<^sup>2"
  have "sqrt (of_int ?n / 4) < sqrt 2500 \<longleftrightarrow> (of_int ?n / 4 :: real) < 2500"
    by (rule real_sqrt_less_iff)
  moreover have "sqrt 2500 = 50" by (rule real_sqrt_unique) simp_all
  moreover have "(of_int ?n / 4 :: real) < 2500 \<longleftrightarrow> ?n < 10000" by (rule quarter_less)
  ultimately show ?thesis by (simp only: centerDistance_eq)
qed

lemma centerDistance_greater_iff:
  "50 < centerDistance a b \<longleftrightarrow>
     10000 < (2 * area_x b + area_width b - (2 * area_x a + area_width a))\<^sup>2 +
     (2 * area_y b + area_height b - (2 * area_y a + area_height a))\<^sup>2"
proof -
  let ?n = "(2 * area_x b + area_width b - (2 * area_x a + area_width a))\<^sup>2 +
     (2 * area_y b + area_height b - (2 * area_y a + area_height a))\<^sup>2"
  have "sqrt 2500 < sqrt (of_int ?n / 4) \<longleftrightarrow> 2500 < (of_int ?n / 4 :: real)"
    by (rule real_sqrt_less_iff)
  moreover have "sqrt 2500 = 50" by (rule real_sqrt_unique) simp_all
  moreover have "2500 < (of_int ?n / 4 :: real) \<longleftrightarrow> 10000 < ?n" by (rule quarter_greater)
  ultimately show ?thesis by (simp only: centerDistance_eq)
qed

lemma merge_two:
  "mergeSuspiciousAreas [a, b] =
     (if areAreasNearby a b 50 then [mergeAreaGroup [a, b]] else [a, b])"
  by (simp add: mergeSuspiciousAreas_def mergeStep_def absorb_def upt_rec [of 0] upt_rec [of 1]
        upt_rec [of 2] upt_rec [of "Suc 0"])

lemma mergeAreaGroup_two:
  assumes "rnd (confidence a) = confidence a" and "rnd (intensity a) = intensity a"
  shows "mergeAreaGroup [a, b] =
     \<lparr>area_x = min (area_x a) (area_x b), area_y = min (area_y a) (area_y b),
      area_width = max (area_x a + area_width a) (area_x b + area_width b) -
                   min (area_x a) (area_x b),
      area_height = max (area_y a + area_height a) (area_y b + area_height b) -
                    min (area_y a) (area_y b),
      confidence = fdiv (fadd (confidence a) (confidence b)) 2,
      area_type = classifySuspiciousArea (fdiv (fadd (intensity a) (intensity b)) 2),
      intensity = fdiv (fadd (intensity a) (intensity b)) 2,
      mergedCount = Some 2\<rparr>"
proof -
  have "fadd 0 (confidence a) = confidence a" "fadd 0 (intensity a) = intensity a"
    using assms by (simp_all add: fadd_def)
  then show ?thesis
    by (simp add: mergeAreaGroup_def Let_def)
qed

lemma sample_boxes:
  "pixelBox sampleArea" "pixelBox (sampleArea\<lparr>area_x := 32\<rparr>)"
  "pixelBox (sampleArea\<lparr>area_x := 64\<rparr>)"
  by (simp_all add: pixelBox_def sampleArea_def float_eval)

lemma sample_distances:
  "centerDistance sampleArea (sampleArea\<lparr>area_x := 32\<rparr>) < 50"
  "50 < centerDistance sampleArea (sampleArea\<lparr>area_x := 64\<rparr>)"
  by (simp_all add: centerDistance_less_iff centerDistance_greater_iff sampleArea_def)


text \<open>
  C4. Two flagged blocks whose centers are less than 50 pixels apart are merged into one
  area: its box is the bounding box of the two boxes, its confidence and its intensity are
  the binary64 averages \<^verbatim>\<open>(a + b) / 2\<close> of the two members, its \<^verbatim>\<open>mergedCount\<close> is 2. Two
  flagged blocks whose centers are more than 50 pixels apart are returned as they are, in
  their order.
\<close>

theorem merge_two_blocks:
  assumes "pixelBox a" and "pixelBox b"
  shows "(centerDistance a b < 50 \<longrightarrow>
      mergeSuspiciousAreas [a, b] =
        [\<lparr>area_x = min (area_x a) (area_x b), area_y = min (area_y a) (area_y b),
          area_width = max (area_x a + area_width a) (area_x b + area_width b) -
                       min (area_x a) (area_x b),
          area_height = max (area_y a + area_height a) (area_y b + area_height b) -
                        min (area_y a) (area_y b),
          confidence = fdiv (fadd (confidence a) (confidence b)) 2,
          area_type = classifySuspiciousArea (fdiv (fadd (intensity a) (intensity b)) 2),
          intensity = fdiv (fadd (intensity a) (intensity b)) 2,
          mergedCount = Some 2\<rparr>]) \<and>
     (50 < centerDistance a b \<longrightarrow> mergeSuspiciousAreas [a, b] = [a, b])"
proof -
  have d: "rnd (confidence a) = confidence a" "rnd (intensity a) = intensity a"
    using assms(1) by (simp_all add: pixelBox_def)
  have 1: "centerDistance a b < 50 \<Longrightarrow> areAreasNearby a b 50"
    using areAreasNearby_iff [OF assms] centerDistance_less_iff [of a b] by simp
  have 2: "50 < centerDistance a b \<Longrightarrow> \<not> areAreasNearby a b 50"
    using areAreasNearby_iff [OF assms] centerDistance_greater_iff [of a b] by simp
  show ?thesis
    using 1 2 by (auto simp add: merge_two mergeAreaGroup_two [OF d])
qed

theorem merge_two_blocks_witness:
  "mergeSuspiciousAreas [sampleArea, sampleArea\<lparr>area_x := 32\<rparr>] =
     [\<lparr>area_x = 0, area_y = 0, area_width = 64, area_height = 32, confidence = 1,
       area_type = high_manipulation, intensity = 255, mergedCount = Some 2\<rparr>] \<and>
   mergeSuspiciousAreas [sampleArea, sampleArea\<lparr>area_x := 64\<rparr>] =
     [sampleArea, sampleArea\<lparr>area_x := 64\<rparr>]"
proof -
  have "fdiv (fadd 1 1) 2 = 1" "fdiv (fadd 255 255) 2 = 255"
    "classifySuspiciousArea 255 = high_manipulation"
    by (simp_all add: float_eval classifySuspiciousArea_def)
  then show ?thesis
    using merge_two_blocks [OF sample_boxes(1,2)] merge_two_blocks [OF sample_boxes(1,3)]
      sample_distances
    by (simp add: sampleArea_def)
qed


subsection \<open>The merge pass\<close>

lemma absorb_fold:
  "\<exists>g. fst (foldl (absorb areas i) (grp, pr) js) = grp @ g \<and> set g \<subseteq> (!) areas ` set js"
proof (induction js arbitrary: grp pr)
  case Nil
  then show ?case by simp
next
  case (Cons j js)
  show ?case
  proof (cases "j \<notin> pr \<and> areAreasNearby (areas ! i) (areas ! j) 50")
    case True
    then have st: "absorb areas i (grp, pr) j = (grp @ [areas ! j], insert j pr)"
      by (simp add: absorb_def)
    from Cons.IH [of "grp @ [areas ! j]" "insert j pr"]
    obtain g where "fst (foldl (absorb areas i) (grp @ [areas ! j], insert j pr) js) =
        (grp @ [areas ! j]) @ g" and "set g \<subseteq> (!) areas ` set js"
      by blast
    then have "fst (foldl (absorb areas i) (grp, pr) (j # js)) = grp @ (areas ! j # g) \<and>
        set (areas ! j # g) \<subseteq> (!) areas ` set (j # js)"
      using st by auto
    then show ?thesis by blast
  next
    case False
    then have st: "absorb areas i (grp, pr) j = (grp, pr)"
      by (auto simp add: absorb_def)
    from Cons.IH [of grp pr]
    obtain g where "fst (foldl (absorb areas i) (grp, pr) js) = grp @ g"
      and "set g \<subseteq> (!) areas ` set js"
      by blast
    then have "fst (foldl (absorb areas i) (grp, pr) (j # js)) = grp @ g \<and>
        set g \<subseteq> (!) areas ` set (j # js)"
      using st by auto
    then show ?thesis by blast
  qed
qed

lemma mergeStep_cases:
  assumes "i < length areas"
  shows "mergeStep areas (merged, pr) i = (merged, pr) \<or>
     (\<exists>pr'. mergeStep areas (merged, pr) i = (merged @ [areas ! i], pr')) \<or>
     (\<exists>g pr'. g \<noteq> [] \<and> set g \<subseteq> set areas \<and>
        mergeStep areas (merged, pr) i = (merged @ [mergeAreaGroup (areas ! i # g)], pr'))"
proof (cases "i \<in> pr")
  case True
  then show ?thesis by (simp add: mergeStep_def)
next
  case False
  obtain grp pr' where f: "foldl (absorb areas i) ([areas ! i], insert i pr)
      [i + 1 ..< length areas] = (grp, pr')"
    by (cases "foldl (absorb areas i) ([areas ! i], insert i pr) [i + 1 ..< length areas]")
  from absorb_fold [of areas i "[areas ! i]" "insert i pr" "[i + 1 ..< length areas]"] f
  obtain g where g: "grp = areas ! i # g" "set g \<subseteq> (!) areas ` set [i + 1 ..< length areas]"
    by auto
  have sub: "set g \<subseteq> set areas"
    using g(2) by (auto simp add: subset_iff)
  have st: "mergeStep areas (merged, pr) i =
      (merged @ [if 1 < length grp then mergeAreaGroup grp else areas ! i], pr')"
    using False f by (simp add: mergeStep_def)
  show ?thesis
  proof (cases "g = []")
    case True
    with st g(1) show ?thesis by simp
  next
    case False
    with st g(1) sub show ?thesis by auto
  qed
qed

text \<open>What the merge pass emits for the seed at index \<open>s\<close>.\<close>

lemma merge_pass_seeds:
  assumes "k \<le> length areas"
  shows "\<exists>seeds. sorted_wrt (<) seeds \<and> (\<forall>s\<in>set seeds. s < k) \<and>
     list_all2 (\<lambda>s e. e = areas ! s \<or>
         (\<exists>g. g \<noteq> [] \<and> set g \<subseteq> set areas \<and> e = mergeAreaGroup (areas ! s # g)))
       seeds (fst (foldl (mergeStep areas) ([], {}) [0 ..< k]))"
  using assms
proof (induction k)
  case 0
  show ?case by (rule exI [of _ "[]"]) simp
next
  case (Suc k)
  let ?R = "\<lambda>s e. e = areas ! s \<or>
         (\<exists>g. g \<noteq> [] \<and> set g \<subseteq> set areas \<and> e = mergeAreaGroup (areas ! s # g))"
  obtain merged pr where st: "foldl (mergeStep areas) ([], {}) [0 ..< k] = (merged, pr)"
    by (cases "foldl (mergeStep areas) ([], {}) [0 ..< k]")
  from Suc obtain seeds where seeds: "sorted_wrt (<) seeds" "\<forall>s\<in>set seeds. s < k"
      "list_all2 ?R seeds merged"
    using st by auto
  have k: "k < length areas" using Suc.prems by simp
  have step: "foldl (mergeStep areas) ([], {}) [0 ..< Suc k] = mergeStep areas (merged, pr) k"
    using st by simp
  from mergeStep_cases [OF k, of merged pr]
  consider "mergeStep areas (merged, pr) k = (merged, pr)"
    | pr' where "mergeStep areas (merged, pr) k = (merged @ [areas ! k], pr')"
    | g pr' where "g \<noteq> []" "set g \<subseteq> set areas"
        "mergeStep areas (merged, pr) k = (merged @ [mergeAreaGroup (areas ! k # g)], pr')"
    by blast
  then show ?case
  proof cases
    case 1
    have "sorted_wrt (<) seeds \<and> (\<forall>s\<in>set seeds. s < Suc k) \<and>
        list_all2 ?R seeds (fst (foldl (mergeStep areas) ([], {}) [0 ..< Suc k]))"
      using seeds 1 step by (auto simp add: less_Suc_eq)
    then show ?thesis by blast
  next
    case 2
    have "list_all2 ?R (seeds @ [k]) (merged @ [areas ! k])"
      using seeds(3) by (intro list_all2_appendI) simp_all
    then have "sorted_wrt (<) (seeds @ [k]) \<and> (\<forall>s\<in>set (seeds @ [k]). s < Suc k) \<and>
        list_all2 ?R (seeds @ [k]) (fst (foldl (mergeStep areas) ([], {}) [0 ..< Suc k]))"
      using seeds(1,2) 2 step by (auto simp add: sorted_wrt_append less_Suc_eq)
    then show ?thesis by blast
  next
    case 3
    have "?R k (mergeAreaGroup (areas ! k # g))" using 3(1,2) by blast
    then have "list_all2 ?R (seeds @ [k]) (merged @ [mergeAreaGroup (areas ! k # g)])"
      using seeds(3) by (intro list_all2_appendI) simp_all
    then have "sorted_wrt (<) (seeds @ [k]) \<and> (\<forall>s\<in>set (seeds @ [k]). s < Suc k) \<and>
        list_all2 ?R (seeds @ [k]) (fst (foldl (mergeStep areas) ([], {}) [0 ..< Suc k]))"
      using seeds(1,2) 3(3) step by (auto simp add: sorted_wrt_append less_Suc_eq)
    then show ?thesis by blast
  qed
qed

lemma sorted_wrt_take: "sorted_wrt P xs \<Longrightarrow> sorted_wrt P (take n xs)"
  by (metis append_take_drop_id sorted_wrt_append)

lemma mergeSuspiciousAreas_seeds:
  "\<exists>seeds. sorted_wrt (<) seeds \<and> (\<forall>s\<in>set seeds. s < length areas) \<and>
     list_all2 (\<lambda>s e. e = areas ! s \<or>
         (\<exists>g. g \<noteq> [] \<and> set g \<subseteq> set areas \<and> e = mergeAreaGroup (areas ! s # g)))
       seeds (mergeSuspiciousAreas areas)"
proof -
  let ?R = "\<lambda>s e. e = areas ! s \<or>
         (\<exists>g. g \<noteq> [] \<and> set g \<subseteq> set areas \<and> e = mergeAreaGroup (areas ! s # g))"
  from merge_pass_seeds [of "length areas" areas]
  obtain seeds where seeds: "sorted_wrt (<) seeds" "\<forall>s\<in>set seeds. s < length areas"
      "list_all2 ?R seeds (fst (foldl (mergeStep areas) ([], {}) [0 ..< length areas]))"
    by blast
  have "sorted_wrt (<) (take 20 seeds)" using seeds(1) by (rule sorted_wrt_take)
  moreover have "\<forall>s\<in>set (take 20 seeds). s < length areas"
    using seeds(2) by (meson in_set_takeD)
  moreover have "list_all2 ?R (take 20 seeds) (mergeSuspiciousAreas areas)"
    unfolding mergeSuspiciousAreas_def using seeds(3) by (rule list_all2_takeI)
  ultimately show ?thesis by blast
qed










subsection \<open>Invariants of the suspicious areas\<close>

lemma fold_bytes_nonneg: "0 \<le> s \<Longrightarrow> 0 \<le> foldl (\<lambda>s p. fadd s (byteval p)) s ps"
proof (induction ps arbitrary: s)
  case Nil
  then show ?case by simp
next
  case (Cons p ps)
  have "0 \<le> byteval p"
    unfolding byteval_def by (rule of_nat_0_le_iff)
  with Cons.prems have "0 \<le> s + byteval p" by (rule add_nonneg_nonneg)
  then have "0 \<le> fadd s (byteval p)"
    unfolding fadd_def by (rule rnd_nonneg)
  then show ?case using Cons.IH by simp
qed

lemma calculateBlockIntensity_nonneg: "0 \<le> calculateBlockIntensity data x y b w"
proof -
  have "0 \<le> fdiv (foldl (\<lambda>s p. fadd s (byteval p)) 0 ps) (real n)" for ps n
    unfolding fdiv_def using fold_bytes_nonneg [of 0 ps] by (intro rnd_nonneg) simp
  then show ?thesis
    by (simp add: calculateBlockIntensity_def Let_def)
qed

lemma calculateBlockIntensity_double:
  "rnd (calculateBlockIntensity data x y b w) = calculateBlockIntensity data x y b w"
proof -
  have "rnd 0 = 0" by (simp add: float_eval)
  then show ?thesis
    by (simp add: calculateBlockIntensity_def Let_def fdiv_def rnd_idem)
qed

lemma rnd_one: "rnd 1 = 1"
  by (simp add: float_eval)

lemma loopStarts_less: "x \<in> set (loopStarts n 32) \<Longrightarrow> x < n"
  by (auto simp add: loopStarts_def)

lemma detectBlock_area:
  assumes "a \<in> set (detectBlock cfg data w h y x)"
  shows "a = \<lparr>area_x = int x, area_y = int y,
               area_width = min 32 (int w - int x), area_height = min 32 (int h - int y),
               confidence = min (fdiv (calculateBlockIntensity data x y 32 w) 255) 1,
               area_type = classifySuspiciousArea (calculateBlockIntensity data x y 32 w),
               intensity = calculateBlockIntensity data x y 32 w, mergedCount = None\<rparr>"
  using assms by (simp add: detectBlock_def Let_def split: if_splits)

lemma flaggedBlocks_area:
  assumes "a \<in> set (flaggedBlocks cfg data w h)"
  shows "\<exists>x y. x < w \<and> y < h \<and>
     a = \<lparr>area_x = int x, area_y = int y,
          area_width = min 32 (int w - int x), area_height = min 32 (int h - int y),
          confidence = min (fdiv (calculateBlockIntensity data x y 32 w) 255) 1,
          area_type = classifySuspiciousArea (calculateBlockIntensity data x y 32 w),
          intensity = calculateBlockIntensity data x y 32 w, mergedCount = None\<rparr>"
proof -
  from assms obtain y x where "y \<in> set (loopStarts h 32)" "x \<in> set (loopStarts w 32)"
      "a \<in> set (detectBlock cfg data w h y x)"
    by (auto simp add: flaggedBlocks_def)
  then show ?thesis
    using detectBlock_area loopStarts_less by blast
qed

lemma flaggedBlocks_confidence:
  assumes "a \<in> set (flaggedBlocks cfg data w h)"
  shows "0 \<le> confidence a" "confidence a \<le> 1" "mergedCount a = None"
    "rnd (confidence a) = confidence a" "rnd (intensity a) = intensity a"
proof -
  from flaggedBlocks_area [OF assms] obtain x y where
    a: "a = \<lparr>area_x = int x, area_y = int y,
          area_width = min 32 (int w - int x), area_height = min 32 (int h - int y),
          confidence = min (fdiv (calculateBlockIntensity data x y 32 w) 255) 1,
          area_type = classifySuspiciousArea (calculateBlockIntensity data x y 32 w),
          intensity = calculateBlockIntensity data x y 32 w, mergedCount = None\<rparr>"
    by blast
  have "0 \<le> fdiv (calculateBlockIntensity data x y 32 w) 255"
    unfolding fdiv_def using calculateBlockIntensity_nonneg [of data x y 32 w]
    by (intro rnd_nonneg) simp
  then show "0 \<le> confidence a" by (simp add: a)
  show "confidence a \<le> 1" by (simp add: a)
  show "mergedCount a = None" by (simp add: a)
  show "rnd (confidence a) = confidence a"
    by (simp add: a min_def fdiv_def rnd_idem rnd_one)
  show "rnd (intensity a) = intensity a"
    by (simp add: a calculateBlockIntensity_double)
qed

text \<open>The flagged blocks of an image of less than \<open>2\<^sup>5\<^sup>0\<close> by \<open>2\<^sup>5\<^sup>0\<close> pixels are pixel boxes.\<close>

lemma flaggedBlocks_pixelBox:
  assumes "a \<in> set (flaggedBlocks cfg data w h)" and "w < 2 ^ 50" and "h < 2 ^ 50"
  shows "pixelBox a"
proof -
  from flaggedBlocks_area [OF assms(1)] obtain x y where xy: "x < w" "y < h" and
    a: "a = \<lparr>area_x = int x, area_y = int y,
          area_width = min 32 (int w - int x), area_height = min 32 (int h - int y),
          confidence = min (fdiv (calculateBlockIntensity data x y 32 w) 255) 1,
          area_type = classifySuspiciousArea (calculateBlockIntensity data x y 32 w),
          intensity = calculateBlockIntensity data x y 32 w, mergedCount = None\<rparr>"
    by blast
  have "int x < 2 ^ 50" "int y < 2 ^ 50"
    using xy assms(2,3) by simp_all
  moreover have "area_x a = int x" "area_y a = int y"
    "area_width a = min 32 (int w - int x)" "area_height a = min 32 (int h - int y)"
    by (simp_all add: a)
  moreover have "0 \<le> min 32 (int w - int x)" "min 32 (int w - int x) \<le> 2 ^ 50"
    "0 \<le> min 32 (int h - int y)" "min 32 (int h - int y) \<le> 2 ^ 50"
    using xy by (simp_all add: min_def)
  ultimately show ?thesis
    unfolding pixelBox_def
    using flaggedBlocks_confidence(4,5) [OF assms(1)] by simp
qed

text \<open>The sum of \<open>k\<close> confidences is at most \<open>k\<close>, rounded as it is after every addition.\<close>

lemma rnd_above_2_53: "rnd (2 ^ 53 + 1) = 2 ^ 53"
  by (simp add: float_eval)

lemma fold_confidence:
  assumes "\<forall>a\<in>set grp. 0 \<le> confidence a \<and> confidence a \<le> 1"
    and "0 \<le> s" and "s \<le> real k" and "s \<le> 2 ^ 53"
  shows "0 \<le> foldl (\<lambda>s a. fadd s (confidence a)) s grp \<and>
     foldl (\<lambda>s a. fadd s (confidence a)) s grp \<le> real (k + length grp)"
  using assms
proof (induction grp arbitrary: s k)
  case Nil
  then show ?case by simp
next
  case (Cons a grp)
  have c: "0 \<le> confidence a" "confidence a \<le> 1" using Cons.prems(1) by simp_all
  have 0: "0 \<le> fadd s (confidence a)"
    unfolding fadd_def using c(1) Cons.prems(2) by (intro rnd_nonneg) simp
  have "s + confidence a \<le> 2 ^ 53 + 1" using c(2) Cons.prems(4) by simp
  then have "fadd s (confidence a) \<le> rnd (2 ^ 53 + 1)"
    unfolding fadd_def by (rule rnd_mono)
  then have 2: "fadd s (confidence a) \<le> 2 ^ 53" by (simp only: rnd_above_2_53)
  have 1: "fadd s (confidence a) \<le> real (Suc k)"
  proof (cases "Suc k < 2 ^ 53")
    case True
    have "s + confidence a \<le> real (Suc k)" using c(2) Cons.prems(3) by simp
    then have "fadd s (confidence a) \<le> rnd (real (Suc k))"
      unfolding fadd_def by (rule rnd_mono)
    then show ?thesis using rnd_of_nat [OF True] by simp
  next
    case False
    then have "(2 ^ 53 :: nat) \<le> Suc k" by simp
    then have "real (2 ^ 53 :: nat) \<le> real (Suc k)" by (simp only: of_nat_le_iff)
    then have "(2 ^ 53 :: real) \<le> real (Suc k)" by simp
    with 2 show ?thesis by linarith
  qed
  from Cons.IH [OF _ 0 1 2] Cons.prems(1)
  show ?case by simp
qed

lemma mergeAreaGroup_confidence:
  assumes "\<forall>a\<in>set grp. 0 \<le> confidence a \<and> confidence a \<le> 1" and "grp \<noteq> []"
  shows "0 \<le> confidence (mergeAreaGroup grp)" "confidence (mergeAreaGroup grp) \<le> 1"
proof -
  let ?t = "foldl (\<lambda>s a. fadd s (confidence a)) 0 grp"
  from fold_confidence [OF assms(1), of 0 0]
  have t: "0 \<le> ?t" "?t \<le> real (length grp)" by simp_all
  have n: "0 < real (length grp)" using assms(2) by simp
  have c: "confidence (mergeAreaGroup grp) = fdiv ?t (real (length grp))"
    by (simp add: mergeAreaGroup_def Let_def)
  have "0 \<le> ?t / real (length grp)" using t(1) n by simp
  then show "0 \<le> confidence (mergeAreaGroup grp)"
    unfolding c fdiv_def by (rule rnd_nonneg)
  have "?t / real (length grp) \<le> 1" using t(2) n by simp
  then have "fdiv ?t (real (length grp)) \<le> rnd 1"
    unfolding fdiv_def by (rule rnd_mono)
  then show "confidence (mergeAreaGroup grp) \<le> 1"
    by (simp only: c rnd_one)
qed

lemma mergeAreaGroup_count: "mergedCount (mergeAreaGroup grp) = Some (length grp)"
  by (simp add: mergeAreaGroup_def Let_def)

lemma mergeSuspiciousAreas_entries:
  assumes "e \<in> set (mergeSuspiciousAreas areas)"
  shows "e \<in> set areas \<or>
     (\<exists>grp. 2 \<le> length grp \<and> set grp \<subseteq> set areas \<and> e = mergeAreaGroup grp)"
proof -
  from mergeSuspiciousAreas_seeds [of areas]
  obtain seeds where seeds: "\<forall>s\<in>set seeds. s < length areas"
    "list_all2 (\<lambda>s e. e = areas ! s \<or>
         (\<exists>g. g \<noteq> [] \<and> set g \<subseteq> set areas \<and> e = mergeAreaGroup (areas ! s # g)))
       seeds (mergeSuspiciousAreas areas)"
    by blast
  from assms obtain i where i: "i < length (mergeSuspiciousAreas areas)"
      "e = mergeSuspiciousAreas areas ! i"
    by (auto simp add: in_set_conv_nth)
  from seeds(2) i have len: "i < length seeds"
    by (simp add: list_all2_lengthD)
  then have s: "seeds ! i < length areas" using seeds(1) by simp
  from seeds(2) i(1) have "e = areas ! (seeds ! i) \<or>
      (\<exists>g. g \<noteq> [] \<and> set g \<subseteq> set areas \<and> e = mergeAreaGroup (areas ! (seeds ! i) # g))"
    unfolding i(2) by (rule list_all2_nthD2)
  then show ?thesis
  proof
    assume "e = areas ! (seeds ! i)"
    then show ?thesis using s by simp
  next
    assume "\<exists>g. g \<noteq> [] \<and> set g \<subseteq> set areas \<and> e = mergeAreaGroup (areas ! (seeds ! i) # g)"
    then obtain g where g: "g \<noteq> []" "set g \<subseteq> set areas"
        "e = mergeAreaGroup (areas ! (seeds ! i) # g)"
      by blast
    have "2 \<le> length (areas ! (seeds ! i) # g)"
      using g(1) by (cases g) simp_all
    moreover have "set (areas ! (seeds ! i) # g) \<subseteq> set areas"
      using g(2) s by simp
    ultimately show ?thesis using g(3) by blast
  qed
qed

lemma bright_pixels: "blockPixels [255] 0 0 32 (Suc 0) = [255]"
  by (simp add: blockPixels_def upt_literal)

lemma bright_flagged:
  "flaggedBlocks config [255] (Suc 0) (Suc 0) =
     [\<lparr>area_x = 0, area_y = 0, area_width = 1, area_height = 1, confidence = 1,
       area_type = high_manipulation, intensity = 255, mergedCount = None\<rparr>]"
  by (simp add: flaggedBlocks_def loopStarts_def detectBlock_def calculateBlockIntensity_def
        classifySuspiciousArea_def bright_pixels config_def float_eval)

lemma merge_one: "mergeSuspiciousAreas [a] = [a]"
  by (simp add: mergeSuspiciousAreas_def mergeStep_def)

lemma bright_areas:
  "detectSuspiciousAreas config brightPixelCodec brightPixelEla =
     [\<lparr>area_x = 0, area_y = 0, area_width = 1, area_height = 1, confidence = 1,
       area_type = high_manipulation, intensity = 255, mergedCount = None\<rparr>]"
  by (simp add: detectSuspiciousAreas_def brightPixelCodec_def brightPixelEla_def sampleCodec_def
        bright_flagged merge_one)


text \<open>
  C9, as amended. Every area that \<open>detectSuspiciousAreas\<close> returns has a confidence between
  0 and 1. It is either a flagged block, which has no \<^verbatim>\<open>mergedCount\<close>, or the merge of a
  group of two or more flagged blocks, whose \<^verbatim>\<open>mergedCount\<close> is the size of the group.
\<close>

theorem suspicious_area_invariants:
  "\<forall>a\<in>set (detectSuspiciousAreas cfg c ela).
     0 \<le> confidence a \<and> confidence a \<le> 1 \<and>
     (\<exists>data w h. elaGreyscale c (elaQuality cfg) = Inr (data, w, h) \<and>
        (a \<in> set (flaggedBlocks cfg data w h) \<and> mergedCount a = None \<or>
         (\<exists>grp. 2 \<le> length grp \<and> set grp \<subseteq> set (flaggedBlocks cfg data w h) \<and>
            a = mergeAreaGroup grp \<and> mergedCount a = Some (length grp))))"
proof
  fix a
  assume a: "a \<in> set (detectSuspiciousAreas cfg c ela)"
  have "\<exists>data w h. elaGreyscale c (elaQuality cfg) = Inr (data, w, h) \<and>
      a \<in> set (mergeSuspiciousAreas (flaggedBlocks cfg data w h))"
  proof (cases "elaGreyscale c (elaQuality cfg)")
    case (Inl e)
    with a show ?thesis by (simp add: detectSuspiciousAreas_def split: if_splits)
  next
    case (Inr g)
    obtain data w h where "g = (data, w, h)" by (cases g)
    with Inr a show ?thesis
      by (simp add: detectSuspiciousAreas_def split: if_splits)
  qed
  then obtain data w h where g: "elaGreyscale c (elaQuality cfg) = Inr (data, w, h)"
    and m: "a \<in> set (mergeSuspiciousAreas (flaggedBlocks cfg data w h))"
    by blast
  let ?areas = "flaggedBlocks cfg data w h"
  from mergeSuspiciousAreas_entries [OF m]
  show "0 \<le> confidence a \<and> confidence a \<le> 1 \<and>
     (\<exists>data w h. elaGreyscale c (elaQuality cfg) = Inr (data, w, h) \<and>
        (a \<in> set (flaggedBlocks cfg data w h) \<and> mergedCount a = None \<or>
         (\<exists>grp. 2 \<le> length grp \<and> set grp \<subseteq> set (flaggedBlocks cfg data w h) \<and>
            a = mergeAreaGroup grp \<and> mergedCount a = Some (length grp))))"
  proof
    assume "a \<in> set ?areas"
    then show ?thesis
      using g flaggedBlocks_confidence(1,2,3) [of a cfg data w h] by blast
  next
    assume "\<exists>grp. 2 \<le> length grp \<and> set grp \<subseteq> set ?areas \<and> a = mergeAreaGroup grp"
    then obtain grp where grp: "2 \<le> length grp" "set grp \<subseteq> set ?areas" "a = mergeAreaGroup grp"
      by blast
    have b: "\<forall>a\<in>set grp. 0 \<le> confidence a \<and> confidence a \<le> 1"
      using grp(2) flaggedBlocks_confidence(1,2) by blast
    have ne: "grp \<noteq> []" using grp(1) by auto
    have "0 \<le> confidence a" "confidence a \<le> 1"
      unfolding grp(3) using mergeAreaGroup_confidence [OF b ne] by simp_all
    moreover have "mergedCount a = Some (length grp)"
      unfolding grp(3) by (rule mergeAreaGroup_count)
    ultimately show ?thesis using g grp by blast
  qed
qed

theorem suspicious_area_invariants_witness:
  "0 \<le> confidence
      \<lparr>area_x = 0, area_y = 0, area_width = 1, area_height = 1, confidence = 1,
       area_type = high_manipulation, intensity = 255, mergedCount = None\<rparr> \<and>
   confidence
      \<lparr>area_x = 0, area_y = 0, area_width = 1, area_height = 1, confidence = 1,
       area_type = high_manipulation, intensity = 255, mergedCount = None\<rparr> \<le> 1 \<and>
   (\<exists>data w h. elaGreyscale brightPixelCodec (elaQuality config) = Inr (data, w, h) \<and>
      \<lparr>area_x = 0, area_y = 0, area_width = 1, area_height = 1, confidence = 1,
       area_type = high_manipulation, intensity = 255, mergedCount = None\<rparr>
        \<in> set (flaggedBlocks config data w h))"
proof -
  let ?a = "\<lparr>area_x = 0, area_y = 0, area_width = 1, area_height = 1, confidence = 1,
       area_type = high_manipulation, intensity = 255, mergedCount = None\<rparr>"
  have "?a \<in> set (detectSuspiciousAreas config brightPixelCodec brightPixelEla)"
    by (simp only: bright_areas list.set_intros)
  from suspicious_area_invariants [of config brightPixelCodec brightPixelEla, THEN bspec, OF this]
  show ?thesis
    by (auto simp add: mergeAreaGroup_count)
qed


text \<open>
  C9 as stated fails: the one flagged block of a white pixel is returned without a
  \<^verbatim>\<open>mergedCount\<close>.
\<close>

theorem suspicious_area_invariants_counterexample:
  "detectSuspiciousAreas config brightPixelCodec brightPixelEla =
     [\<lparr>area_x = 0, area_y = 0, area_width = 1, area_height = 1, confidence = 1,
       area_type = high_manipulation, intensity = 255, mergedCount = None\<rparr>]"
  by (simp add: detectSuspiciousAreas_def brightPixelCodec_def brightPixelEla_def sampleCodec_def
        bright_flagged merge_one)


end
